theory Spec2Isabelle
  imports Main
begin

section \<open>Python values used by quickcodes.py\<close>

text \<open>
  A \<open>bytearray\<close> is a list of Python integers, each in \<open>range(256)\<close>; the range is
  checked where the source stores a single element. A \<open>str\<close> is its list of code
  points, restricted to the code points below 256.
\<close>

type_synonym bytes = "int list"

datatype py_exception = ValueError | IndexError | IOError

datatype error = QuickCodesError string | Raised py_exception

definition bindE :: "'e + 'a \<Rightarrow> ('a \<Rightarrow> 'e + 'b) \<Rightarrow> 'e + 'b" where
  "bindE m f = (case m of Inl e \<Rightarrow> Inl e | Inr x \<Rightarrow> f x)"

text \<open>
  Slice bounds are adjusted as CPython does for a step of one: a negative bound counts
  from the end, and every bound is clipped to \<open>[0, len]\<close>. A slice never raises.
\<close>

definition norm_index :: "nat \<Rightarrow> int \<Rightarrow> nat" where
  "norm_index n i =
     (if i < 0 then (if i + int n < 0 then 0 else nat (i + int n))
      else if int n < i then n else nat i)"

definition py_slice :: "'a list \<Rightarrow> int \<Rightarrow> int \<Rightarrow> 'a list" where
  \<comment> \<open>\<open>xs[a:b]\<close>\<close>
  "py_slice xs a b =
     take (norm_index (length xs) b - norm_index (length xs) a)
       (drop (norm_index (length xs) a) xs)"

definition py_slice_from :: "'a list \<Rightarrow> int \<Rightarrow> 'a list" where
  \<comment> \<open>\<open>xs[a:]\<close>\<close>
  "py_slice_from xs a = drop (norm_index (length xs) a) xs"

definition py_slice_to :: "'a list \<Rightarrow> int \<Rightarrow> 'a list" where
  \<comment> \<open>\<open>xs[:b]\<close>\<close>
  "py_slice_to xs b = take (norm_index (length xs) b) xs"

definition py_slice_assign :: "'a list \<Rightarrow> int \<Rightarrow> int \<Rightarrow> 'a list \<Rightarrow> 'a list" where
  \<comment> \<open>\<open>xs[a:b] = ys\<close> on a bytearray: the slice is replaced, whatever the length of \<open>ys\<close>\<close>
  "py_slice_assign xs a b ys =
     take (norm_index (length xs) a) xs @ ys @
     drop (max (norm_index (length xs) a) (norm_index (length xs) b)) xs"

definition py_getitem :: "'a list \<Rightarrow> int \<Rightarrow> py_exception + 'a" where
  \<comment> \<open>\<open>xs[i]\<close>\<close>
  "py_getitem xs i =
     (let j = (if i < 0 then i + int (length xs) else i)
      in if 0 \<le> j \<and> j < int (length xs) then Inr (xs ! nat j) else Inl IndexError)"

definition py_setitem :: "bytes \<Rightarrow> int \<Rightarrow> int \<Rightarrow> py_exception + bytes" where
  \<comment> \<open>\<open>xs[i] = v\<close> on a bytearray\<close>
  "py_setitem xs i v =
     (let j = (if i < 0 then i + int (length xs) else i)
      in if v < 0 \<or> 255 < v then Inl ValueError
         else if 0 \<le> j \<and> j < int (length xs) then Inr (xs[nat j := v])
         else Inl IndexError)"

definition substr :: "string \<Rightarrow> nat \<Rightarrow> nat \<Rightarrow> string" where
  \<comment> \<open>\<open>s[a:b]\<close> for constant bounds \<open>0 \<le> a \<le> b\<close>\<close>
  "substr s a b = take (b - a) (drop a s)"

section \<open>The fixed-width integer codec (utils.type_helpers)\<close>

text \<open>
  Modelled from the spec: the module \<open>utils.type_helpers\<close> (the classes \<open>uint8\<close>,
  \<open>uint16\<close>, \<open>uint32\<close>, \<open>uint64\<close>, \<open>int32\<close>, \<open>int64\<close>) is not part of the
  sources. The spec describes it as a codec that decodes a string of hexadecimal
  characters, under a byte order, to an unsigned or signed integer of 8 to 64 bits and
  encodes such an integer to its bytes in the selected order; arithmetic on a value wraps
  around at the width. A byte string of the wrong length for the width is rejected with
  \<open>ValueError\<close>.
\<close>

datatype endianness = Little | Big

definition hex_digit :: "char \<Rightarrow> int option" where
  "hex_digit c =
     (let n = int (of_char c)
      in if 48 \<le> n \<and> n \<le> 57 then Some (n - 48)
         else if 65 \<le> n \<and> n \<le> 70 then Some (n - 55)
         else if 97 \<le> n \<and> n \<le> 102 then Some (n - 87)
         else None)"

fun hex_acc :: "int \<Rightarrow> string \<Rightarrow> int option" where
  "hex_acc a [] = Some a"
| "hex_acc a (c # cs) =
     (case hex_digit c of None \<Rightarrow> None | Some d \<Rightarrow> hex_acc (16 * a + d) cs)"

definition parse_hex :: "string \<Rightarrow> py_exception + int" where
  "parse_hex s =
     (if s = [] then Inl ValueError
      else case hex_acc 0 s of None \<Rightarrow> Inl ValueError | Some v \<Rightarrow> Inr v)"

definition uint8 :: "int \<Rightarrow> int" where
  "uint8 x = x mod 2 ^ 8"

definition uint16 :: "int \<Rightarrow> int" where
  "uint16 x = x mod 2 ^ 16"

definition uint32 :: "int \<Rightarrow> int" where
  "uint32 x = x mod 2 ^ 32"

definition uint64 :: "int \<Rightarrow> int" where
  "uint64 x = x mod 2 ^ 64"

definition int32 :: "int \<Rightarrow> int" where
  "int32 x = (x + 2 ^ 31) mod 2 ^ 32 - 2 ^ 31"

definition int64 :: "int \<Rightarrow> int" where
  "int64 x = (x + 2 ^ 63) mod 2 ^ 64 - 2 ^ 63"

fun le_bytes :: "nat \<Rightarrow> int \<Rightarrow> bytes" where
  "le_bytes 0 x = []"
| "le_bytes (Suc n) x = (x mod 256) # le_bytes n (x div 256)"

fun le_value :: "bytes \<Rightarrow> int" where
  "le_value [] = 0"
| "le_value (b # bs) = b + 256 * le_value bs"

definition as_bytes :: "endianness \<Rightarrow> nat \<Rightarrow> int \<Rightarrow> bytes" where
  "as_bytes e n x = (case e of Little \<Rightarrow> le_bytes n x | Big \<Rightarrow> rev (le_bytes n x))"

definition from_bytes :: "endianness \<Rightarrow> nat \<Rightarrow> bytes \<Rightarrow> py_exception + int" where
  "from_bytes e n bs =
     (if length bs = n
      then Inr (case e of Little \<Rightarrow> le_value bs | Big \<Rightarrow> le_value (rev bs))
      else Inl ValueError)"

section \<open>Construction: splitting and validating the code text\<close>

definition is_space :: "char \<Rightarrow> bool" where
  \<comment> \<open>the code points below 256 for which \<open>str.isspace\<close> holds\<close>
  "is_space c = (of_char c \<in> {9, 10, 11, 12, 13, 28, 29, 30, 31, 32, 133, 160 :: nat})"

fun split_acc :: "string \<Rightarrow> string \<Rightarrow> string list" where
  "split_acc cur [] = (if cur = [] then [] else [cur])"
| "split_acc cur (c # cs) =
     (if is_space c then (if cur = [] then split_acc [] cs else cur # split_acc [] cs)
      else split_acc (cur @ [c]) cs)"

definition split :: "string \<Rightarrow> string list" where
  \<comment> \<open>\<open>codes.split()\<close>\<close>
  "split s = split_acc [] s"

fun pair_lines :: "string list \<Rightarrow> py_exception + string list" where
  \<comment> \<open>the comprehension over \<open>range(0, len(parts), 2)\<close>; \<open>parts[i + 1]\<close> raises on an odd count\<close>
  "pair_lines [] = Inr []"
| "pair_lines [a] = Inl IndexError"
| "pair_lines (a # b # rest) =
     (case pair_lines rest of Inl e \<Rightarrow> Inl e | Inr ls \<Rightarrow> Inr ((a @ '' '' @ b) # ls))"

definition is_hex_char :: "char \<Rightarrow> bool" where
  \<comment> \<open>the character class \<open>[0-9a-fA-F]\<close>\<close>
  "is_hex_char c = (c \<in> set ''0123456789abcdefABCDEF'')"

definition validate_code :: "string \<Rightarrow> bool" where
  \<comment> \<open>\<open>QC_RE.fullmatch(line)\<close>\<close>
  "validate_code line =
     (length line = 17 \<and> list_all is_hex_char (take 8 line) \<and> line ! 8 = CHR '' '' \<and>
      list_all is_hex_char (drop 9 line))"

record QuickCodes =
  filePath :: string
  codes :: string
  data :: bytes
  lines :: "string list"

definition QuickCodes_init :: "string \<Rightarrow> string \<Rightarrow> error + QuickCodes" where
  "QuickCodes_init path text =
     (case pair_lines (split text) of
        Inl e \<Rightarrow> Inl (QuickCodesError ''Invalid code!'')
      | Inr ls \<Rightarrow>
          (case find (\<lambda>line. \<not> validate_code line) ls of
             Some line \<Rightarrow> Inl (QuickCodesError (''Invalid code: '' @ line @ ''!''))
           | None \<Rightarrow> Inr \<lparr>filePath = path, codes = text, data = [], lines = ls\<rparr>))"

section \<open>The pattern matcher\<close>

function search_loop :: "bytes \<Rightarrow> int \<Rightarrow> int \<Rightarrow> bytes \<Rightarrow> int \<Rightarrow> int \<Rightarrow> int \<Rightarrow> int" where
  "search_loop dat stop len s count i k =
     (if i < stop then
        (if py_slice dat i (i + len) = s then
           (if k = count then i else search_loop dat stop len s count (i + 1) (k + 1))
         else search_loop dat stop len s count (i + 1) k)
      else - 1)"
  by pat_completeness auto
termination
  by (relation "measure (\<lambda>(dat, stop, len, s, count, i, k). nat (stop - i))") auto

declare search_loop.simps [simp del]

definition search_data :: "bytes \<Rightarrow> int \<Rightarrow> int \<Rightarrow> bytes \<Rightarrow> int \<Rightarrow> int \<Rightarrow> int" where
  "search_data dat sz start search len count =
     search_loop dat (sz - len + 1) len (py_slice_to search len) count start 1"

function rsearch_loop :: "bytes \<Rightarrow> int \<Rightarrow> int \<Rightarrow> bytes \<Rightarrow> int \<Rightarrow> int \<Rightarrow> int \<Rightarrow> int" where
  "rsearch_loop dat sz len s count i k =
     (if - 1 < i then
        (if i + len \<le> sz \<and> py_slice dat i (i + len) = s \<and> k = count then i
         else if i + len \<le> sz \<and> py_slice dat i (i + len) = s
           then rsearch_loop dat sz len s count (i - 1) (k + 1)
         else rsearch_loop dat sz len s count (i - 1) k)
      else - 1)"
  by pat_completeness auto
termination
  by (relation "measure (\<lambda>(dat, sz, len, s, count, i, k). nat (i + 1))") auto

declare rsearch_loop.simps [simp del]

definition reverse_search_data :: "bytes \<Rightarrow> int \<Rightarrow> int \<Rightarrow> bytes \<Rightarrow> int \<Rightarrow> int \<Rightarrow> int" where
  "reverse_search_data dat sz start search len count =
     rsearch_loop dat sz len (py_slice_to search len) count start 1"

section \<open>The interpreter state\<close>

text \<open>
  The state of a run is the object (\<open>self\<close>) together with the three registers that
  \<open>apply_code\<close> declares: \<open>pointer\<close> (an \<open>int64\<close>), \<open>end_pointer\<close> (a \<open>uint64\<close>)
  and \<open>ptr\<close> (a \<open>uint32\<close>). The line counter \<open>line_index\<close> is passed beside it.
  Every line of \<open>lines\<close> has passed \<open>validate_code\<close> in the constructor, so the
  character positions read below exist.
\<close>

record state = QuickCodes +
  pointer :: int
  end_pointer :: int
  ptr :: int

definition resolve_offset :: "bool \<Rightarrow> int \<Rightarrow> state \<Rightarrow> int" where
  \<comment> \<open>\<open>off = int32(tmp6)\<close>, then \<open>off.value += pointer.value\<close> when the flag asks for it\<close>
  "resolve_offset relative tmp6 st =
     (if relative then int32 (int32 tmp6 + pointer st) else int32 tmp6)"

definition update_byte :: "(int \<Rightarrow> int) \<Rightarrow> bytes \<Rightarrow> int \<Rightarrow> py_exception + bytes" where
  \<comment> \<open>\<open>wv8 = self.data[write]\<close>, a plain Python integer, changed and stored back\<close>
  "update_byte f d write = bindE (py_getitem d write) (\<lambda>wv8. py_setitem d write (f wv8))"

definition update_field :: "nat \<Rightarrow> (int \<Rightarrow> int) \<Rightarrow> bytes \<Rightarrow> int \<Rightarrow> py_exception + bytes" where
  \<comment> \<open>a little-endian field of \<open>n\<close> bytes read through the codec, changed and spliced back\<close>
  "update_field n f d write =
     bindE (from_bytes Little n (py_slice d write (write + int n)))
       (\<lambda>wv. Inr (py_slice_assign d write (write + int n) (as_bytes Little n (f wv))))"

section \<open>Opcodes 0, 1, 2: fixed write\<close>

definition op_write :: "string \<Rightarrow> state \<Rightarrow> py_exception + state" where
  "op_write line st =
     (let nbytes = uint8 (2 ^ nat (int (of_char (line ! 0)) - 48)) in
      bindE (parse_hex (substr line 2 8)) (\<lambda>tmp6.
      let off = resolve_offset (line ! 1 = CHR ''8'') tmp6 st in
      bindE (parse_hex (substr line 9 17)) (\<lambda>tmp8.
      let val = uint32 tmp8 in
      Inr (st\<lparr>data := py_slice_assign (data st) off (off + nbytes)
             (py_slice (as_bytes Little 4 val) (4 - nbytes) ((4 - nbytes) + nbytes))\<rparr>))))"

section \<open>Opcode 3: increase and decrease\<close>

definition op_incdec :: "string \<Rightarrow> state \<Rightarrow> py_exception + state" where
  "op_incdec line st =
     (let t = line ! 1 in
      bindE (parse_hex (substr line 2 8)) (\<lambda>tmp6.
      let write = resolve_offset (t \<in> set ''89ACDE'') tmp6 st in
      bindE (parse_hex (substr line 9 17)) (\<lambda>tmp8.
      let val = uint32 tmp8 in
      bindE
        (if t \<in> set ''08'' then update_byte (\<lambda>wv8. wv8 + val mod 256) (data st) write
         else if t \<in> set ''19'' then
           update_field 2 (\<lambda>wv16. uint16 (wv16 + val mod 65536)) (data st) write
         else if t \<in> set ''2A'' then
           update_field 4 (\<lambda>wv32. uint32 (wv32 + val)) (data st) write
         else if t \<in> set ''3B'' then
           update_field 8 (\<lambda>wv64. uint64 (wv64 + val)) (data st) write
         else if t \<in> set ''4C'' then update_byte (\<lambda>wv8. wv8 - val mod 256) (data st) write
         else if t \<in> set ''5D'' then
           update_field 2 (\<lambda>wv16. uint16 (wv16 - val mod 65536)) (data st) write
         else if t \<in> set ''6E'' then
           update_field 4 (\<lambda>wv32. uint32 (wv32 - val)) (data st) write
         else if t \<in> set ''7F'' then
           update_field 8 (\<lambda>wv64. uint64 (wv64 - val)) (data st) write
         else Inr (data st))
        (\<lambda>d. Inr (st\<lparr>data := d\<rparr>)))))"

section \<open>Opcode 4: repeated fill\<close>

definition fill_write :: "char \<Rightarrow> int \<Rightarrow> int \<Rightarrow> bytes \<Rightarrow> py_exception + bytes" where
  "fill_write t write val d =
     (if t \<in> set ''084C'' then py_setitem d write (uint8 val)
      else if t \<in> set ''195D'' then
        Inr (py_slice_assign d write (write + 2) (as_bytes Little 2 (uint16 val)))
      else if t \<in> set ''2A6E'' then
        Inr (py_slice_assign d write (write + 4) (as_bytes Little 4 val))
      else Inr d)"

fun fill_loop :: "char \<Rightarrow> int \<Rightarrow> int \<Rightarrow> int \<Rightarrow> nat \<Rightarrow> int \<Rightarrow> int \<Rightarrow> bytes \<Rightarrow> py_exception + bytes" where
  \<comment> \<open>\<open>for i in range(n)\<close>: the fifth argument counts the iterations left\<close>
  "fill_loop t off incoff incval 0 i val d = Inr d"
| "fill_loop t off incoff incval (Suc r) i val d =
     bindE (fill_write t (off + incoff * i) val d)
       (\<lambda>d'. fill_loop t off incoff incval r (i + 1) (uint32 (val + incval)) d')"

definition op_fill :: "nat \<Rightarrow> string \<Rightarrow> state \<Rightarrow> py_exception + nat \<times> state" where
  "op_fill line_index line st =
     (let t = line ! 1 in
      bindE (parse_hex (substr line 2 8)) (\<lambda>tmp6.
      let off = resolve_offset (t \<in> set ''89ACDE'') tmp6 st in
      bindE (parse_hex (substr line 9 17)) (\<lambda>tmp8.
      let val = uint32 tmp8 in
      bindE (py_getitem (lines st) (int line_index + 1)) (\<lambda>line2.
      bindE (if t \<in> set ''456CDE'' then parse_hex (substr line2 0 4)
             else parse_hex (substr line2 1 4)) (\<lambda>tmpn.
      let n = int32 tmpn in
      bindE (parse_hex (substr line2 4 8)) (\<lambda>tmp4.
      let incoff = int32 tmp4 in
      bindE (parse_hex (substr line2 9 17)) (\<lambda>tmpv.
      let incval = uint32 tmpv in
      bindE (fill_loop t off incoff incval (nat n) 0 val (data st))
        (\<lambda>d. Inr (line_index + 1, st\<lparr>data := d\<rparr>)))))))))"

section \<open>Opcode 5: copy bytes\<close>

definition op_copy :: "nat \<Rightarrow> string \<Rightarrow> state \<Rightarrow> py_exception + nat \<times> state" where
  "op_copy line_index line st =
     bindE (parse_hex (substr line 2 8)) (\<lambda>tmp6.
     let off_src = int32 tmp6 in
     bindE (parse_hex (substr line 9 17)) (\<lambda>tmp8.
     let val = uint32 tmp8;
         src = (if line ! 1 = CHR ''8'' then off_src + pointer st else off_src) in
     bindE (py_getitem (lines st) (int line_index + 1)) (\<lambda>line2.
     bindE (parse_hex (substr line2 2 8)) (\<lambda>tmp6'.
     let off_dst = int32 tmp6';
         dst = (if line2 ! 1 = CHR ''8'' then off_dst + pointer st else off_dst) in
     Inr (line_index + 1,
          st\<lparr>data := py_slice_assign (data st) dst (dst + val)
                 (py_slice (data st) src (src + val))\<rparr>)))))"

section \<open>Opcode 6: pointer codes\<close>

text \<open>
  In the write branch (\<open>w = 4\<close>) the source stores a codec object into the buffer and
  builds a \<open>uint16\<close> from a \<open>uint32\<close> object; both denote the object's value here.
\<close>

definition op_mega :: "string \<Rightarrow> state \<Rightarrow> py_exception + state" where
  "op_mega line st =
     (let t = line ! 1; w = line ! 2; x = line ! 3; y = line ! 5; z = line ! 7 in
      bindE (parse_hex (substr line 9 17)) (\<lambda>tmp8.
      let val = uint32 tmp8;
          off = (if t \<in> set ''89A'' then pointer st else 0) in
      if w = CHR ''0'' then
        (let val1 = (if x = CHR ''1'' then uint32 (val + ptr st) else val);
             write = val1 + off;
             st1 = (if y = CHR ''1'' then st\<lparr>pointer := int64 val1\<rparr> else st) in
         if t \<in> set ''08'' then
           bindE (py_getitem (data st1) write) (\<lambda>wv8. Inr (st1\<lparr>ptr := uint32 wv8\<rparr>))
         else if t \<in> set ''19'' then
           bindE (from_bytes Little 2 (py_slice (data st1) write (write + 2)))
             (\<lambda>wv16. Inr (st1\<lparr>ptr := uint32 wv16\<rparr>))
         else if t \<in> set ''2A'' then
           bindE (from_bytes Little 4 (py_slice (data st1) write (write + 4)))
             (\<lambda>wv32. Inr (st1\<lparr>ptr := uint32 wv32\<rparr>))
         else Inr st1)
      else if w = CHR ''1'' then
        (let p1 = (if x = CHR ''0'' then uint32 (ptr st + val)
                   else if x = CHR ''1'' then uint32 (ptr st - val)
                   else if x = CHR ''2'' then uint32 (ptr st * val)
                   else ptr st);
             p2 = (if z = CHR ''1'' then uint32 (p1 + pointer st) else p1) in
         Inr (st\<lparr>pointer := int64 p2, ptr := p2\<rparr>))
      else if w = CHR ''2'' then
        (let q = (if x = CHR ''0'' then int64 (pointer st + val)
                  else if x = CHR ''1'' then int64 (pointer st - val)
                  else if x = CHR ''2'' then int64 (pointer st * val)
                  else pointer st) in
         Inr (if y = CHR ''1'' then st\<lparr>pointer := q, ptr := uint32 q\<rparr>
              else st\<lparr>pointer := q\<rparr>))
      else if w = CHR ''4'' then
        (let write = pointer st in
         if t \<in> set ''08'' then
           bindE (py_setitem (data st) write (uint8 val)) (\<lambda>d. Inr (st\<lparr>data := d\<rparr>))
         else if t \<in> set ''19'' then
           Inr (st\<lparr>data := py_slice_assign (data st) write (write + 2)
                  (as_bytes Little 2 (uint16 val))\<rparr>)
         else if t \<in> set ''2A'' then
           Inr (st\<lparr>data := py_slice_assign (data st) write (write + 4)
                  (as_bytes Little 4 val)\<rparr>)
         else Inr st)
      else Inr st))"

section \<open>Opcode 7: write up to a maximum or minimum\<close>

definition op_clamp :: "string \<Rightarrow> state \<Rightarrow> py_exception + state" where
  "op_clamp line st =
     (let t = line ! 1 in
      bindE (parse_hex (substr line 2 8)) (\<lambda>tmp6.
      let write = resolve_offset (t \<in> set ''89ACDE'') tmp6 st in
      bindE (parse_hex (substr line 9 17)) (\<lambda>tmp8.
      let val = uint32 tmp8 in
      bindE
        (if t \<in> set ''08'' then
           update_byte (\<lambda>wv8. if val mod 256 > wv8 then val mod 256 else wv8) (data st) write
         else if t \<in> set ''19'' then
           update_field 2 (\<lambda>wv16. if val mod 65536 > wv16 then uint16 (val mod 65536) else wv16)
             (data st) write
         else if t \<in> set ''2A'' then
           update_field 4 (\<lambda>wv32. if val > wv32 then uint32 val else wv32) (data st) write
         else if t \<in> set ''4C'' then
           update_byte (\<lambda>wv8. if val mod 256 < wv8 then val mod 256 else wv8) (data st) write
         else if t \<in> set ''5D'' then
           update_field 2 (\<lambda>wv16. if val mod 65536 < wv16 then uint16 (val mod 65536) else wv16)
             (data st) write
         else if t \<in> set ''6E'' then
           update_field 4 (\<lambda>wv32. if val < wv32 then uint32 val else wv32) (data st) write
         else Inr (data st))
        (\<lambda>d. Inr (st\<lparr>data := d\<rparr>)))))"

section \<open>Continuation words and the skip after a failed search\<close>

definition padded :: "int \<Rightarrow> bytes" where
  \<comment> \<open>\<open>bytearray((n + 3) & ~3)\<close> for \<open>n \<ge> 0\<close>\<close>
  "padded n = replicate (nat (n + 3 - (n + 3) mod 4)) 0"

function read_words ::
  "string list \<Rightarrow> int \<Rightarrow> int \<Rightarrow> string \<Rightarrow> nat \<Rightarrow> bytes \<Rightarrow> py_exception + string \<times> nat \<times> bytes" where
  \<comment> \<open>\<open>for i in range(i0, len, 8)\<close>: each round takes the next line and stores its two words\<close>
  "read_words ls len i line line_index buf =
     (if i < len then
        (case py_getitem ls (int line_index + 1) of
           Inl e \<Rightarrow> Inl e
         | Inr line' \<Rightarrow>
             (case parse_hex (substr line' 0 8) of
                Inl e \<Rightarrow> Inl e
              | Inr w1 \<Rightarrow>
                  (case parse_hex (substr line' 9 17) of
                     Inl e \<Rightarrow> Inl e
                   | Inr w2 \<Rightarrow>
                       read_words ls len (i + 8) line' (line_index + 1)
                         (let b1 = py_slice_assign buf i (i + 4) (as_bytes Big 4 (uint32 w1))
                          in if i + 4 < len
                             then py_slice_assign b1 (i + 4) ((i + 4) + 4)
                                    (as_bytes Big 4 (uint32 w2))
                             else b1))))
      else Inr (line, line_index, buf))"
  by pat_completeness auto
termination
  by (relation "measure (\<lambda>(ls, len, i, line, line_index, buf). nat (len - i))") auto

declare read_words.simps [simp del]

definition skip_test :: "string \<Rightarrow> bool" where
  \<comment> \<open>\<open>line and ((line[0] not in ["8", "B", "C"]) or line[1] == "8")\<close>\<close>
  "skip_test line =
     (line \<noteq> [] \<and> (if line ! 0 \<in> set ''8BC'' then line ! 1 = CHR ''8'' else True))"

function skip_inner :: "string list \<Rightarrow> string \<Rightarrow> nat \<Rightarrow> string \<times> nat" where
  "skip_inner ls line line_index =
     (if skip_test line then
        (if length ls \<le> line_index then (line, line_index)
         else skip_inner ls (ls ! line_index) (line_index + 1))
      else (line, line_index))"
  by pat_completeness auto
termination
  by (relation "measure (\<lambda>(ls, line, line_index). length ls - line_index)") auto

declare skip_inner.simps [simp del]

lemma skip_inner_ge: "line_index \<le> snd (skip_inner ls line line_index)"
proof (induction ls line line_index rule: skip_inner.induct)
  case (1 ls line line_index)
  show ?case
  proof (cases "skip_test line \<and> \<not> length ls \<le> line_index")
    case True
    then have "line_index + 1 \<le> snd (skip_inner ls (ls ! line_index) (line_index + 1))"
      using "1.IH" by blast
    moreover have "skip_inner ls line line_index = skip_inner ls (ls ! line_index) (line_index + 1)"
      using True by (subst skip_inner.simps) simp
    ultimately show ?thesis by simp
  next
    case False
    then have "skip_inner ls line line_index = (line, line_index)"
      by (subst skip_inner.simps) auto
    then show ?thesis by simp
  qed
qed

function skip_outer :: "string list \<Rightarrow> string \<Rightarrow> nat \<Rightarrow> string \<times> nat" where
  "skip_outer ls line line_index =
     (if line_index < length ls then
        (case skip_inner ls line (line_index + 1) of
           (line', line_index') \<Rightarrow> skip_outer ls line' line_index')
      else (line, line_index))"
  by pat_completeness auto
termination
proof (relation "measure (\<lambda>(ls, line, line_index). length ls - line_index)", goal_cases)
  case 1
  show ?case by simp
next
  case (2 ls line line_index line' line_index')
  have "line_index + 1 \<le> snd (skip_inner ls line (line_index + 1))"
    by (rule skip_inner_ge)
  with 2 have "line_index < line_index'"
    by (metis Suc_eq_plus1 Suc_le_lessD snd_conv)
  moreover have "skip_inner ls line (Suc line_index) = (line', line_index')"
    using 2 by simp
  ultimately show ?case
    using 2(1) by simp
qed

declare skip_outer.simps [simp del]

definition search_result :: "int \<Rightarrow> string \<Rightarrow> nat \<Rightarrow> state \<Rightarrow> nat \<times> state" where
  \<comment> \<open>\<open>pointer.value = ...\<close>, then the skip when the search found nothing\<close>
  "search_result found line line_index st =
     (if int64 found < 0
      then (snd (skip_outer (lines st) line line_index), st\<lparr>pointer := 0\<rparr>)
      else (line_index, st\<lparr>pointer := int64 found\<rparr>))"

section \<open>Opcode 8: forward search\<close>

definition op_search :: "nat \<Rightarrow> string \<Rightarrow> state \<Rightarrow> py_exception + nat \<times> state" where
  "op_search line_index line st =
     (let t = line ! 1 in
      bindE (parse_hex (substr line 2 4)) (\<lambda>tmp3.
      bindE (parse_hex (substr line 4 8)) (\<lambda>tmp4.
      let len = int32 tmp4 in
      bindE (parse_hex (substr line 9 17)) (\<lambda>tmp8.
      let val = uint32 tmp8;
          cnt = (if int32 tmp3 = 0 then 1 else int32 tmp3);
          find0 = py_slice_assign (padded len) 0 4 (as_bytes Big 4 val) in
      bindE (read_words (lines st) len 4 line line_index find0) (\<lambda>(line', line_index', find).
      Inr (search_result
             (search_data (data st) (int (length (data st)))
                (if t = CHR ''8'' then pointer st else 0) find len cnt)
             line' line_index' st))))))"

section \<open>Opcode 9: pointer manipulator\<close>

definition op_pointer :: "string \<Rightarrow> state \<Rightarrow> py_exception + state" where
  "op_pointer line st =
     bindE (parse_hex (substr line 9 17)) (\<lambda>tmp8.
     let off = uint32 tmp8; y = line ! 1 in
     if y = CHR ''0'' then
       bindE (from_bytes Big 4 (py_slice (data st) off (off + 4)))
         (\<lambda>val. Inr (st\<lparr>pointer := int64 (uint32 val)\<rparr>))
     else if y = CHR ''1'' then
       bindE (from_bytes Little 4 (py_slice (data st) off (off + 4)))
         (\<lambda>val. Inr (st\<lparr>pointer := int64 (uint32 val)\<rparr>))
     else if y = CHR ''2'' then Inr (st\<lparr>pointer := int64 (pointer st + off)\<rparr>)
     else if y = CHR ''3'' then Inr (st\<lparr>pointer := int64 (pointer st - off)\<rparr>)
     else if y = CHR ''4'' then Inr (st\<lparr>pointer := int64 (int (length (data st)) - off)\<rparr>)
     else if y = CHR ''5'' then Inr (st\<lparr>pointer := int64 off\<rparr>)
     else if y = CHR ''D'' then Inr (st\<lparr>end_pointer := uint64 off\<rparr>)
     else if y = CHR ''E'' then Inr (st\<lparr>end_pointer := uint64 (pointer st + off)\<rparr>)
     else Inr st)"

section \<open>Opcode A: multi-write\<close>

definition op_multiwrite :: "nat \<Rightarrow> string \<Rightarrow> state \<Rightarrow> py_exception + nat \<times> state" where
  "op_multiwrite line_index line st =
     (let t = line ! 1 in
      bindE (parse_hex (substr line 2 8)) (\<lambda>tmp6.
      let off = resolve_offset (t = CHR ''8'') tmp6 st in
      bindE (parse_hex (substr line 9 17)) (\<lambda>tmp8.
      let sz = uint32 tmp8 in
      bindE (read_words (lines st) sz 0 line line_index (padded sz)) (\<lambda>(line', line_index', write).
      Inr (line_index',
           st\<lparr>data := py_slice_assign (data st) off (off + sz) (py_slice_to write sz)\<rparr>)))))"

section \<open>Opcode B: backward search\<close>

definition op_rsearch :: "nat \<Rightarrow> string \<Rightarrow> state \<Rightarrow> py_exception + nat \<times> state" where
  "op_rsearch line_index line st =
     (let t = line ! 1 in
      bindE (parse_hex (substr line 2 4)) (\<lambda>tmp3.
      bindE (parse_hex (substr line 4 8)) (\<lambda>tmp4.
      let len = int32 tmp4 in
      bindE (parse_hex (substr line 9 17)) (\<lambda>tmp8.
      let val = uint32 tmp8;
          cnt = (if int32 tmp3 = 0 then 1 else int32 tmp3);
          st1 = (if end_pointer st = 0
                 then st\<lparr>end_pointer := uint64 (int (length (data st)) - 1)\<rparr> else st);
          find0 = py_slice_assign (padded len) 0 4 (as_bytes Big 4 val) in
      bindE (read_words (lines st1) len 4 line line_index find0) (\<lambda>(line', line_index', find).
      Inr (search_result
             (reverse_search_data (data st1) (int (length (data st1)))
                (if t = CHR ''8'' then pointer st1 else end_pointer st1) find len cnt)
             line' line_index' st1))))))"

section \<open>Opcode C: address byte search\<close>

definition op_asearch :: "nat \<Rightarrow> string \<Rightarrow> state \<Rightarrow> py_exception + nat \<times> state" where
  "op_asearch line_index line st =
     (let t = line ! 1 in
      bindE (parse_hex (substr line 2 4)) (\<lambda>tmp3.
      bindE (parse_hex (substr line 4 8)) (\<lambda>tmp4.
      let len = int32 tmp4 in
      bindE (parse_hex (substr line 9 17)) (\<lambda>tmp8.
      let addr = (if t \<in> set ''8C'' then uint32 (uint32 tmp8 + pointer st) else uint32 tmp8);
          find = py_slice_from (data st) addr;
          cnt = (if int32 tmp3 = 0 then 1 else int32 tmp3) in
      Inr (search_result
             (if t \<in> set ''4C''
              then search_data (data st) (addr + len) 0 find len cnt
              else search_data (data st) (int (length (data st))) (addr + len) find len cnt)
             line line_index st)))))"

section \<open>Opcode D: test and skip\<close>

definition test_holds :: "string \<Rightarrow> state \<Rightarrow> py_exception + bool" where
  \<comment> \<open>the truth value of \<open>off\<close> after the \<open>match op\<close>\<close>
  "test_holds line st =
     (let t = line ! 1; op = line ! 12; bit = line ! 11 in
      bindE (parse_hex (substr line 2 8)) (\<lambda>tmp6.
      let off = resolve_offset (t = CHR ''8'') tmp6 st in
      bindE (parse_hex (substr line 9 11)) (\<lambda>tmp3.
      bindE (parse_hex (substr line 13 17)) (\<lambda>tmp4.
      bindE (from_bytes Little 2 (py_slice (data st) off (off + 2))) (\<lambda>src16.
      bindE (if bit = CHR ''1''
             then bindE (py_getitem (data st) off) (\<lambda>b. Inr (b, int32 tmp4 mod 256))
             else Inr (src16, int32 tmp4)) (\<lambda>(src, val).
      Inr (if op = CHR ''0'' then src = val
           else if op = CHR ''1'' then src \<noteq> val
           else if op = CHR ''2'' then src > val
           else if op = CHR ''3'' then src < val
           else True)))))))"

fun skip_lines :: "string list \<Rightarrow> nat \<Rightarrow> nat \<Rightarrow> py_exception + nat" where
  \<comment> \<open>\<open>while l.value > 0\<close>: the second argument is \<open>l.value\<close>\<close>
  "skip_lines ls 0 line_index = Inr line_index"
| "skip_lines ls (Suc l) line_index =
     bindE (py_getitem ls (int line_index + 1)) (\<lambda>line. skip_lines ls l (line_index + 1))"

definition op_test :: "nat \<Rightarrow> string \<Rightarrow> state \<Rightarrow> py_exception + nat \<times> state" where
  "op_test line_index line st =
     bindE (parse_hex (substr line 9 11)) (\<lambda>tmp3.
     bindE (test_holds line st) (\<lambda>off.
     if \<not> off
     then bindE (skip_lines (lines st) (nat (int32 tmp3)) line_index) (\<lambda>line_index'. Inr (line_index', st))
     else Inr (line_index, st)))"

section \<open>The fetch-execute loop\<close>

definition exec_line :: "nat \<Rightarrow> state \<Rightarrow> py_exception + nat \<times> state" where
  "exec_line line_index st =
     (let line = lines st ! line_index; c = line ! 0 in
      if c \<in> set ''012'' then bindE (op_write line st) (\<lambda>st'. Inr (line_index, st'))
      else if c = CHR ''3'' then bindE (op_incdec line st) (\<lambda>st'. Inr (line_index, st'))
      else if c = CHR ''4'' then op_fill line_index line st
      else if c = CHR ''5'' then op_copy line_index line st
      else if c = CHR ''6'' then bindE (op_mega line st) (\<lambda>st'. Inr (line_index, st'))
      else if c = CHR ''7'' then bindE (op_clamp line st) (\<lambda>st'. Inr (line_index, st'))
      else if c = CHR ''8'' then op_search line_index line st
      else if c = CHR ''9'' then bindE (op_pointer line st) (\<lambda>st'. Inr (line_index, st'))
      else if c = CHR ''A'' then op_multiwrite line_index line st
      else if c = CHR ''B'' then op_rsearch line_index line st
      else if c = CHR ''C'' then op_asearch line_index line st
      else if c = CHR ''D'' then op_test line_index line st
      else Inr (line_index, st))"

subsection \<open>Every line moves the counter forward and leaves the program alone\<close>

lemma bindE_Inr: "bindE m f = Inr y \<longleftrightarrow> (\<exists>x. m = Inr x \<and> f x = Inr y)"
  by (cases m) (simp_all add: bindE_def)

lemma op_write_lines: "op_write line st = Inr st' \<Longrightarrow> lines st' = lines st"
  by (auto simp: op_write_def bindE_Inr Let_def)

lemma op_incdec_lines: "op_incdec line st = Inr st' \<Longrightarrow> lines st' = lines st"
  by (clarsimp simp: op_incdec_def bindE_Inr Let_def)

lemma op_mega_lines: "op_mega line st = Inr st' \<Longrightarrow> lines st' = lines st"
  by (auto simp: op_mega_def bindE_Inr Let_def split: if_splits)

lemma op_clamp_lines: "op_clamp line st = Inr st' \<Longrightarrow> lines st' = lines st"
  by (clarsimp simp: op_clamp_def bindE_Inr Let_def)

lemma op_pointer_lines: "op_pointer line st = Inr st' \<Longrightarrow> lines st' = lines st"
  by (auto simp: op_pointer_def bindE_Inr Let_def split: if_splits)

lemma read_words_ge:
  "read_words ls len i line li buf = Inr (line', li', buf') \<Longrightarrow> li \<le> li'"
proof (induction ls len i line li buf rule: read_words.induct)
  case (1 ls len i line li buf)
  show ?case
  proof (cases "i < len")
    case False
    with "1.prems" show ?thesis by (subst (asm) read_words.simps) simp
  next
    case True
    from "1.prems" True obtain l2 w1 w2 where
      g: "py_getitem ls (int li + 1) = Inr l2" and
      p1: "parse_hex (substr l2 0 8) = Inr w1" and
      p2: "parse_hex (substr l2 9 17) = Inr w2" and
      r: "read_words ls len (i + 8) l2 (li + 1)
            (let b1 = py_slice_assign buf i (i + 4) (as_bytes Big 4 (uint32 w1))
             in if i + 4 < len
                then py_slice_assign b1 (i + 4) ((i + 4) + 4) (as_bytes Big 4 (uint32 w2))
                else b1) = Inr (line', li', buf')"
      by (subst (asm) read_words.simps) (auto split: sum.splits)
    from "1.IH" [OF True g p1 p2 r] show ?thesis by simp
  qed
qed

lemma skip_lines_ge: "skip_lines ls l li = Inr li' \<Longrightarrow> li \<le> li'"
  by (induction l arbitrary: li) (fastforce simp: bindE_Inr)+

lemma skip_outer_ge: "li \<le> snd (skip_outer ls line li)"
proof (induction ls line li rule: skip_outer.induct)
  case (1 ls line li)
  show ?case
  proof (cases "li < length ls")
    case False
    then show ?thesis by (subst skip_outer.simps) simp
  next
    case True
    obtain l2 li2 where s: "skip_inner ls line (li + 1) = (l2, li2)"
      by (cases "skip_inner ls line (li + 1)")
    have "li + 1 \<le> li2" using skip_inner_ge [of "li + 1" ls line] s by simp
    moreover have "li2 \<le> snd (skip_outer ls l2 li2)"
      using "1.IH" [OF True s [symmetric]] .
    moreover have "skip_outer ls line li = skip_outer ls l2 li2"
      using True s by (subst skip_outer.simps) simp
    ultimately show ?thesis by simp
  qed
qed


lemma op_fill_progress:
  "op_fill li line st = Inr (li', st') \<Longrightarrow> li \<le> li' \<and> lines st' = lines st"
  by (clarsimp simp: op_fill_def bindE_Inr Let_def)

lemma op_copy_progress:
  "op_copy li line st = Inr (li', st') \<Longrightarrow> li \<le> li' \<and> lines st' = lines st"
  by (clarsimp simp: op_copy_def bindE_Inr Let_def)

lemma search_result_progress:
  "search_result found line li st = (li', st') \<Longrightarrow> li \<le> li' \<and> lines st' = lines st"
  using skip_outer_ge [of li "lines st" line]
  by (auto simp: search_result_def split: if_splits)

lemma op_search_progress:
  "op_search li line st = Inr (li', st') \<Longrightarrow> li \<le> li' \<and> lines st' = lines st"
  by (clarsimp simp: op_search_def bindE_Inr Let_def)
     (metis read_words_ge search_result_progress le_trans)

lemma op_multiwrite_progress:
  "op_multiwrite li line st = Inr (li', st') \<Longrightarrow> li \<le> li' \<and> lines st' = lines st"
  by (clarsimp simp: op_multiwrite_def bindE_Inr Let_def) (metis read_words_ge)

lemma op_rsearch_progress:
  "op_rsearch li line st = Inr (li', st') \<Longrightarrow> li \<le> li' \<and> lines st' = lines st"
  by (clarsimp simp: op_rsearch_def bindE_Inr Let_def split: if_splits)
     (metis (no_types, lifting) read_words_ge search_result_progress le_trans
        QuickCodes.simps state.simps QuickCodes.select_convs state.select_convs
        QuickCodes.surjective state.surjective state.update_convs)+

lemma op_asearch_progress:
  "op_asearch li line st = Inr (li', st') \<Longrightarrow> li \<le> li' \<and> lines st' = lines st"
  by (clarsimp simp: op_asearch_def bindE_Inr Let_def) (metis search_result_progress)

lemma op_test_progress:
  "op_test li line st = Inr (li', st') \<Longrightarrow> li \<le> li' \<and> lines st' = lines st"
  by (auto simp: op_test_def bindE_Inr Let_def split: if_splits dest: skip_lines_ge)

lemma exec_line_progress:
  "exec_line li st = Inr (li', st') \<Longrightarrow> li \<le> li' \<and> lines st' = lines st"
  unfolding exec_line_def Let_def
  by (auto simp: bindE_Inr split: if_splits
      dest: op_write_lines op_incdec_lines op_mega_lines op_clamp_lines op_pointer_lines
        op_fill_progress op_copy_progress op_search_progress op_multiwrite_progress
        op_rsearch_progress op_asearch_progress op_test_progress)

function run_loop :: "nat \<Rightarrow> state \<Rightarrow> error \<times> state + state" where
  \<comment> \<open>on an error the state is the one the failing line was fetched in\<close>
  "run_loop line_index st =
     (if line_index < length (lines st) then
        (case exec_line line_index st of
           Inl e \<Rightarrow> Inl (QuickCodesError ''Invalid code!'', st)
         | Inr (line_index', st') \<Rightarrow> run_loop (line_index' + 1) st')
      else Inr st)"
  by pat_completeness auto
termination
proof (relation "measure (\<lambda>(line_index, st). length (lines st) - line_index)", goal_cases)
  case 1
  show ?case by simp
next
  case (2 line_index st x line_index' st')
  then have "exec_line line_index st = Inr (line_index', st')"
    by simp
  then have "line_index \<le> line_index'" and "lines st' = lines st"
    by (simp_all add: exec_line_progress)
  with 2(1) show ?case by simp
qed

declare run_loop.simps [simp del]

section \<open>Loading, running and persisting\<close>

text \<open>
  The save files are a map from paths to contents; \<open>persisted\<close> logs every call of
  \<open>write_file\<close>. Reading a file that does not exist raises; the write is taken to succeed.
\<close>

record world =
  files :: "string \<Rightarrow> bytes option"
  persisted :: "(string \<times> bytes) list"

definition read_file :: "'a QuickCodes_scheme \<Rightarrow> world \<Rightarrow> py_exception + 'a QuickCodes_scheme" where
  "read_file self w =
     (case files w (filePath self) of
        None \<Rightarrow> Inl IOError
      | Some content \<Rightarrow> Inr (self\<lparr>data := data self @ content\<rparr>))"

definition write_file :: "'a QuickCodes_scheme \<Rightarrow> world \<Rightarrow> world" where
  "write_file self w =
     w\<lparr>files := (files w)(filePath self \<mapsto> data self),
       persisted := persisted w @ [(filePath self, data self)]\<rparr>"

definition start_state :: "QuickCodes \<Rightarrow> state" where
  \<comment> \<open>the object with the registers as \<open>apply_code\<close> declares them: \<open>int64()\<close>, \<open>uint64()\<close>, \<open>uint32()\<close>\<close>
  "start_state self =
     \<lparr>filePath = filePath self, codes = codes self, data = data self, lines = lines self,
      pointer = int64 0, end_pointer = uint64 0, ptr = uint32 0\<rparr>"

definition apply_code :: "QuickCodes \<Rightarrow> world \<Rightarrow> (error \<times> QuickCodes + QuickCodes) \<times> world" where
  "apply_code self w =
     (case read_file (start_state self) w of
        Inl e \<Rightarrow> (Inl (Raised e, self), w)
      | Inr st1 \<Rightarrow>
          (case run_loop 0 st1 of
             Inl (e, st2) \<Rightarrow> (Inl (e, QuickCodes.truncate st2), w)
           | Inr st2 \<Rightarrow> (Inr (QuickCodes.truncate st2), write_file st2 w)))"

section \<open>Notions of the specification\<close>

text \<open>
  The specification speaks of ``one instruction line per consecutive token pair'' and of a
  run in which ``every instruction executed without error''. Both are written down here
  in the specification's terms, to be compared with what the code computes.
\<close>

definition paired_lines :: "string list \<Rightarrow> string list" where
  \<comment> \<open>the \<open>i\<close>-th line is token \<open>2i\<close>, one space, token \<open>2i + 1\<close>\<close>
  "paired_lines parts =
     map (\<lambda>i. parts ! (2 * i) @ '' '' @ parts ! (2 * i + 1)) [0..<length parts div 2]"

inductive executes :: "nat \<Rightarrow> state \<Rightarrow> state \<Rightarrow> bool" where
  finished: "\<not> line_index < length (lines st) \<Longrightarrow> executes line_index st st"
| step: "line_index < length (lines st) \<Longrightarrow> exec_line line_index st = Inr (line_index', st') \<Longrightarrow>
         executes (line_index' + 1) st' st'' \<Longrightarrow> executes line_index st st''"

text \<open>
  For the pattern matcher: the offsets at which a pattern occurs in a buffer, in the order
  of a forward scan from \<open>start\<close> and of a backward scan from \<open>start\<close> down to 0, and
  the \<open>i\<close>-th of them, counted from one, with \<open>-1\<close> when there are fewer than \<open>i\<close>.
\<close>

definition occurs_at :: "bytes \<Rightarrow> bytes \<Rightarrow> nat \<Rightarrow> bool" where
  "occurs_at dat pat j = (j + length pat \<le> length dat \<and> take (length pat) (drop j dat) = pat)"

definition forward_matches :: "bytes \<Rightarrow> bytes \<Rightarrow> nat \<Rightarrow> nat list" where
  "forward_matches dat pat start = filter (occurs_at dat pat) [start..<Suc (length dat)]"

definition backward_matches :: "bytes \<Rightarrow> bytes \<Rightarrow> nat \<Rightarrow> nat list" where
  "backward_matches dat pat start = filter (occurs_at dat pat) (rev [0..<Suc start])"

definition nth_match :: "nat list \<Rightarrow> nat \<Rightarrow> int" where
  "nth_match ms i = (if 0 < i \<and> i \<le> length ms then int (ms ! (i - 1)) else - 1)"

text \<open>
  The first match in scan order: the forward scan visits the offsets from \<open>start\<close> to
  \<open>size - length\<close>, the backward scan the offsets from \<open>start\<close> down to 0, and a match is
  an offset whose window equals the first \<open>length\<close> bytes of the pattern.
\<close>

definition first_forward :: "bytes \<Rightarrow> int \<Rightarrow> int \<Rightarrow> bytes \<Rightarrow> int \<Rightarrow> int" where
  "first_forward dat sz start search len =
     (case find (\<lambda>i. py_slice dat i (i + len) = py_slice_to search len) [start..sz - len] of
        None \<Rightarrow> - 1
      | Some i \<Rightarrow> i)"

definition first_backward :: "bytes \<Rightarrow> int \<Rightarrow> int \<Rightarrow> bytes \<Rightarrow> int \<Rightarrow> int" where
  "first_backward dat sz start search len =
     (case find (\<lambda>i. i + len \<le> sz \<and> py_slice dat i (i + len) = py_slice_to search len)
             (rev [0..start]) of
        None \<Rightarrow> - 1
      | Some i \<Rightarrow> i)"

text \<open>
  The concrete runs below use a store that holds one file, \<open>save\<close>, and an object as the
  constructor returns it.
\<close>

abbreviation single_file :: "bytes \<Rightarrow> world" where
  "single_file content \<equiv> \<lparr>files = [''save'' \<mapsto> content], persisted = []\<rparr>"

abbreviation program :: "string \<Rightarrow> string list \<Rightarrow> QuickCodes" where
  "program text ls \<equiv> \<lparr>filePath = ''save'', codes = text, data = [], lines = ls\<rparr>"

text \<open>A state of the interpreter just after loading, with all registers zero.\<close>

abbreviation loaded :: "string list \<Rightarrow> bytes \<Rightarrow> state" where
  "loaded ls content \<equiv>
     \<lparr>filePath = ''save'', codes = [], data = content, lines = ls,
      pointer = 0, end_pointer = 0, ptr = 0\<rparr>"

section \<open>The constructor\<close>

lemma pair_lines_odd: "odd (length ps) \<Longrightarrow> pair_lines ps = Inl IndexError"
  by (induction ps rule: pair_lines.induct) auto

lemma paired_lines_Cons: "paired_lines (a # b # rest) = (a @ '' '' @ b) # paired_lines rest"
proof -
  have "[0..<Suc (length rest div 2)] = 0 # map Suc [0..<length rest div 2]"
    by (simp add: upt_conv_Cons map_Suc_upt del: upt_Suc)
  then show ?thesis
    by (simp add: paired_lines_def comp_def del: upt_Suc)
qed

lemma pair_lines_even: "even (length ps) \<Longrightarrow> pair_lines ps = Inr (paired_lines ps)"
proof (induction ps rule: pair_lines.induct)
  case 1
  show ?case by (simp add: paired_lines_def)
next
  case (2 a)
  then show ?case by simp
next
  case (3 a b rest)
  then show ?case by (simp add: paired_lines_Cons)
qed

lemma find_invalid: "find (\<lambda>l. \<not> P l) ls = None \<longleftrightarrow> list_all P ls"
  by (induction ls) auto

text \<open>
  Claim C7. The constructor fails with \<open>QuickCodesError\<close> when the text has an odd number
  of whitespace-separated tokens, and when one of the lines formed from the token pairs
  does not have the shape of eight hexadecimal digits, a space, eight hexadecimal digits.
  Otherwise it succeeds with exactly one line per consecutive token pair. The buffer of
  the new object is empty and no file is read: construction takes no store.
\<close>

theorem constructor_pairs_tokens:
  "QuickCodes_init path text =
     (if odd (length (split text)) then Inl (QuickCodesError ''Invalid code!'')
      else if list_all validate_code (paired_lines (split text))
        then Inr \<lparr>filePath = path, codes = text, data = [], lines = paired_lines (split text)\<rparr>
      else Inl (QuickCodesError (''Invalid code: '' @
             the (find (\<lambda>line. \<not> validate_code line) (paired_lines (split text))) @ ''!'')))"
proof (cases "odd (length (split text))")
  case True
  then show ?thesis by (simp add: QuickCodes_init_def pair_lines_odd)
next
  case False
  then have p: "pair_lines (split text) = Inr (paired_lines (split text))"
    by (simp add: pair_lines_even)
  show ?thesis
  proof (cases "find (\<lambda>line. \<not> validate_code line) (paired_lines (split text))")
    case None
    then have "list_all validate_code (paired_lines (split text))"
      by (simp add: find_invalid)
    with None False p show ?thesis by (simp add: QuickCodes_init_def)
  next
    case (Some l)
    then have "\<not> list_all validate_code (paired_lines (split text))"
      using find_invalid [of validate_code "paired_lines (split text)"] by simp
    with Some False p show ?thesis by (simp add: QuickCodes_init_def)
  qed
qed

lemma split_one_token: "split ''20000000'' = [''20000000'']"
  by code_simp

lemma split_short_token: "split ''2000000 0000002A'' = [''2000000'', ''0000002A'']"
  by code_simp

lemma split_two_tokens: "split ''20000000 0000002A'' = [''20000000'', ''0000002A'']"
  by code_simp

lemma short_line_invalid: "\<not> validate_code ''2000000 0000002A''"
  by code_simp

lemma full_line_valid: "validate_code ''20000000 0000002A''"
  by code_simp

theorem constructor_pairs_tokens_witness:
  "QuickCodes_init ''save'' ''20000000'' = Inl (QuickCodesError ''Invalid code!'') \<and>
   QuickCodes_init ''save'' ''2000000 0000002A'' =
     Inl (QuickCodesError ''Invalid code: 2000000 0000002A!'') \<and>
   QuickCodes_init ''save'' ''20000000 0000002A'' =
     Inr (program ''20000000 0000002A'' [''20000000 0000002A''])"
  using constructor_pairs_tokens [of "''save''" "''20000000''"]
    constructor_pairs_tokens [of "''save''" "''2000000 0000002A''"]
    constructor_pairs_tokens [of "''save''" "''20000000 0000002A''"]
  by (simp add: split_one_token split_short_token split_two_tokens paired_lines_def
      short_line_invalid full_line_valid)

section \<open>Persisting\<close>

lemma executes_run_loop: "executes li st st' \<Longrightarrow> run_loop li st = Inr st'"
  by (induction rule: executes.induct) (subst run_loop.simps, simp)+

lemma run_loop_executes: "run_loop li st = Inr st' \<Longrightarrow> executes li st st'"
proof (induction li st rule: run_loop.induct)
  case (1 line_index st)
  show ?case
  proof (cases "line_index < length (lines st)")
    case False
    with "1.prems" have "st' = st" by (subst (asm) run_loop.simps) simp
    with False show ?thesis by (simp add: executes.finished)
  next
    case True
    with "1.prems" obtain li2 st2 where e: "exec_line line_index st = Inr (li2, st2)"
      and r: "run_loop (li2 + 1) st2 = Inr st'"
      by (subst (asm) run_loop.simps) (auto split: sum.splits)
    from "1.IH" [OF True e refl r] have "executes (li2 + 1) st2 st'" .
    with True e show ?thesis by (rule executes.step)
  qed
qed

text \<open>
  Claim C2. \<open>write_file\<close> is called only when every instruction of the program executed
  without error. A run in which an instruction raises returns the error and leaves the
  store as it was, with no call of \<open>write_file\<close> logged, although the buffer in memory
  may have been changed before the failure; a run that succeeds stores the final buffer.
  The run succeeds exactly when the file can be read and every line fetched executes.
\<close>

theorem persist_only_after_success:
  assumes "apply_code self w = (r, w')"
  shows "(case r of
            Inl failure \<Rightarrow> w' = w
          | Inr self' \<Rightarrow> w' = write_file self' w) \<and>
         (\<not> isl r \<longleftrightarrow>
            (\<exists>st1 st2. read_file (start_state self) w = Inr st1 \<and> executes 0 st1 st2))"
proof (cases "read_file (start_state self) w")
  case (Inl e)
  with assms show ?thesis by (auto simp: apply_code_def)
next
  case (Inr st1)
  show ?thesis
  proof (cases "run_loop 0 st1")
    case (Inl f)
    then have "\<And>st2. \<not> executes 0 st1 st2"
      using executes_run_loop by fastforce
    with Inl Inr assms show ?thesis
      by (auto simp: apply_code_def split: prod.splits)
  next
    case r: (Inr st2)
    then have "executes 0 st1 st2" by (rule run_loop_executes)
    moreover have "write_file st2 w = write_file (QuickCodes.truncate st2) w"
      by (simp add: write_file_def QuickCodes.truncate_def)
    ultimately show ?thesis using r Inr assms
      by (auto simp: apply_code_def)
  qed
qed

text \<open>
  The first program writes 42 at offset 0 and then increments the byte at offset 100 of a
  buffer of 16 bytes, which raises: the store is untouched. The second program is the
  write alone, and its result is stored.
\<close>

theorem persist_only_after_success_witness:
  "isl (fst (apply_code
          (program ''20000000 0000002A 30000064 00000001''
             [''20000000 0000002A'', ''30000064 00000001''])
          (single_file (replicate 16 0)))) \<and>
   snd (apply_code
          (program ''20000000 0000002A 30000064 00000001''
             [''20000000 0000002A'', ''30000064 00000001''])
          (single_file (replicate 16 0))) = single_file (replicate 16 0) \<and>
   snd (apply_code (program ''20000000 0000002A'' [''20000000 0000002A''])
          (single_file (replicate 16 0))) =
     write_file
       (program ''20000000 0000002A'' [''20000000 0000002A'']
          \<lparr>data := [42, 0, 0, 0] @ replicate 12 0\<rparr>)
       (single_file (replicate 16 0))"
proof -
  let ?p = "program ''20000000 0000002A 30000064 00000001''
              [''20000000 0000002A'', ''30000064 00000001'']"
  let ?q = "program ''20000000 0000002A'' [''20000000 0000002A'']"
  let ?w = "single_file (replicate 16 0)"
  have a: "fst (apply_code ?p ?w) =
      Inl (QuickCodesError ''Invalid code!'', ?p\<lparr>data := [42, 0, 0, 0] @ replicate 12 0\<rparr>)"
    by code_simp
  have b: "fst (apply_code ?q ?w) = Inr (?q\<lparr>data := [42, 0, 0, 0] @ replicate 12 0\<rparr>)"
    by code_simp
  have p: "apply_code ?p ?w = (fst (apply_code ?p ?w), snd (apply_code ?p ?w))"
    by simp
  have q: "apply_code ?q ?w = (fst (apply_code ?q ?w), snd (apply_code ?q ?w))"
    by simp
  from persist_only_after_success [OF p] persist_only_after_success [OF q]
  show ?thesis by (simp add: a b)
qed

section \<open>Concrete runs\<close>

text \<open>
  Claim C6. On a file of 16 zero bytes the program \<open>20000000 0000002A\<close> is accepted by
  the constructor, runs to the end, and leaves the bytes 42, 0, 0, 0 followed by twelve
  zero bytes, in memory and in the stored file.
\<close>

theorem scenario_write_42:
  "QuickCodes_init ''save'' ''20000000 0000002A'' =
     Inr (program ''20000000 0000002A'' [''20000000 0000002A'']) \<and>
   fst (apply_code (program ''20000000 0000002A'' [''20000000 0000002A''])
          (single_file (replicate 16 0))) =
     Inr (program ''20000000 0000002A'' [''20000000 0000002A'']
            \<lparr>data := [42, 0, 0, 0] @ replicate 12 0\<rparr>) \<and>
   files (snd (apply_code (program ''20000000 0000002A'' [''20000000 0000002A''])
          (single_file (replicate 16 0)))) ''save'' = Some ([42, 0, 0, 0] @ replicate 12 0) \<and>
   persisted (snd (apply_code (program ''20000000 0000002A'' [''20000000 0000002A''])
          (single_file (replicate 16 0)))) = [(''save'', [42, 0, 0, 0] @ replicate 12 0)]"
  by code_simp

text \<open>
  Claim C1 does not hold of the code. A 32-bit write at offset 100 of a buffer of 16 bytes
  is a slice assignment, which Python clips instead of raising: the run succeeds, four
  bytes are appended to the buffer and the longer buffer is stored. The increment of the
  single byte at the same offset indexes the buffer and does fail.
\<close>

theorem write_past_end_extends_buffer:
  "QuickCodes_init ''save'' ''20000064 0000002A'' =
     Inr (program ''20000064 0000002A'' [''20000064 0000002A'']) \<and>
   fst (apply_code (program ''20000064 0000002A'' [''20000064 0000002A''])
          (single_file (replicate 16 0))) =
     Inr (program ''20000064 0000002A'' [''20000064 0000002A'']
            \<lparr>data := replicate 16 0 @ [42, 0, 0, 0]\<rparr>) \<and>
   persisted (snd (apply_code (program ''20000064 0000002A'' [''20000064 0000002A''])
          (single_file (replicate 16 0)))) = [(''save'', replicate 16 0 @ [42, 0, 0, 0])] \<and>
   fst (apply_code (program ''30000064 00000001'' [''30000064 00000001''])
          (single_file (replicate 16 0))) =
     Inl (QuickCodesError ''Invalid code!'',
          program ''30000064 00000001'' [''30000064 00000001''] \<lparr>data := replicate 16 0\<rparr>)"
  by code_simp

text \<open>
  Claim C3 does not hold of the code. Copying four bytes from offset 0 to offset 2 of a
  buffer of four bytes leaves six bytes; copying four bytes from offset 2 to offset 0
  leaves two; a multi-write of four bytes at offset 2 leaves six. Each run succeeds.
\<close>

theorem copy_and_multiwrite_resize_buffer:
  "fst (apply_code
          (program ''50000000 00000004 50000002 00000000''
             [''50000000 00000004'', ''50000002 00000000''])
          (single_file [1, 2, 3, 4])) =
     Inr (program ''50000000 00000004 50000002 00000000''
            [''50000000 00000004'', ''50000002 00000000''] \<lparr>data := [1, 2, 1, 2, 3, 4]\<rparr>) \<and>
   fst (apply_code
          (program ''50000002 00000004 50000000 00000000''
             [''50000002 00000004'', ''50000000 00000000''])
          (single_file [1, 2, 3, 4])) =
     Inr (program ''50000002 00000004 50000000 00000000''
            [''50000002 00000004'', ''50000000 00000000''] \<lparr>data := [3, 4]\<rparr>) \<and>
   fst (apply_code
          (program ''A0000002 00000004 DEADBEEF 00000000''
             [''A0000002 00000004'', ''DEADBEEF 00000000''])
          (single_file [1, 2, 3, 4])) =
     Inr (program ''A0000002 00000004 DEADBEEF 00000000''
            [''A0000002 00000004'', ''DEADBEEF 00000000'']
            \<lparr>data := [1, 2, 222, 173, 190, 239]\<rparr>)"
  by code_simp

text \<open>
  Claim C5 does not hold of the code. The 8-bit forms of opcode 3 add to a plain integer
  and store it back into the bytearray, so 255 + 1 = 256 is rejected: the run fails and
  nothing is stored. The 16-bit form goes through the codec and wraps around.
\<close>

theorem byte_increment_overflow_is_an_error:
  "fst (apply_code (program ''30000000 00000001'' [''30000000 00000001''])
          (single_file [255])) =
     Inl (QuickCodesError ''Invalid code!'',
          program ''30000000 00000001'' [''30000000 00000001''] \<lparr>data := [255]\<rparr>) \<and>
   persisted (snd (apply_code (program ''30000000 00000001'' [''30000000 00000001''])
          (single_file [255]))) = [] \<and>
   fst (apply_code (program ''31000000 00000001'' [''31000000 00000001''])
          (single_file [255, 255])) =
     Inr (program ''31000000 00000001'' [''31000000 00000001''] \<lparr>data := [0, 0]\<rparr>)"
  by code_simp

section \<open>The pattern matcher returns the i-th match\<close>

lemma window_eq:
  "(int j + int (length s) \<le> int (length dat) \<and>
    py_slice dat (int j) (int j + int (length s)) = s) = occurs_at dat s j"
proof (cases "j + length s \<le> length dat")
  case True
  then have "norm_index (length dat) (int j) = j"
    and "norm_index (length dat) (int j + int (length s)) = j + length s"
    by (simp_all add: norm_index_def nat_add_distrib)
  with True show ?thesis by (simp add: py_slice_def occurs_at_def)
next
  case False
  then show ?thesis by (simp add: occurs_at_def)
qed

lemma search_loop_step:
  "search_loop dat (int (length dat) - int (length s) + 1) (int (length s)) s c (int j) k =
     (if j + length s \<le> length dat then
        (if occurs_at dat s j then
           (if k = c then int j
            else search_loop dat (int (length dat) - int (length s) + 1) (int (length s)) s c
                   (int j + 1) (k + 1))
         else search_loop dat (int (length dat) - int (length s) + 1) (int (length s)) s c
                (int j + 1) k)
      else - 1)"
proof (cases "j + length s \<le> length dat")
  case True
  then have "int j < int (length dat) - int (length s) + 1" by simp
  moreover from True have "(py_slice dat (int j) (int j + int (length s)) = s) = occurs_at dat s j"
    using window_eq [of j s dat] by simp
  ultimately show ?thesis using True
    by (subst search_loop.simps) simp
next
  case False
  then have "\<not> int j < int (length dat) - int (length s) + 1" by simp
  with False show ?thesis by (subst search_loop.simps) simp
qed

lemma search_loop_matches:
  "1 \<le> k \<Longrightarrow>
   search_loop dat (int (length dat) - int (length s) + 1) (int (length s)) s (int c) (int j) (int k) =
     (if k \<le> c \<and> c - k < length (filter (occurs_at dat s) [j..<Suc (length dat)])
      then int (filter (occurs_at dat s) [j..<Suc (length dat)] ! (c - k)) else - 1)"
proof (induction "Suc (length dat) - j" arbitrary: j k)
  case 0
  then have "\<not> j + length s \<le> length dat" by simp
  moreover from 0 have "[j..<Suc (length dat)] = []" by simp
  ultimately show ?case by (subst search_loop_step) simp
next
  case (Suc m)
  then have j: "j < Suc (length dat)" by simp
  then have upt: "[j..<Suc (length dat)] = j # [Suc j..<Suc (length dat)]"
    by (simp add: upt_conv_Cons del: upt_Suc)
  from Suc have m: "m = Suc (length dat) - Suc j" by simp
  let ?ms = "filter (occurs_at dat s) [Suc j..<Suc (length dat)]"
  show ?case
  proof (cases "j + length s \<le> length dat")
    case False
    then have "filter (occurs_at dat s) [j..<Suc (length dat)] = []"
      by (auto simp: filter_empty_conv occurs_at_def simp del: upt_Suc)
    with False show ?thesis by (subst search_loop_step) (simp del: upt_Suc)
  next
    case True
    show ?thesis
    proof (cases "occurs_at dat s j")
      case False
      from Suc.hyps(1) [OF m, of k] Suc.prems
      have "search_loop dat (int (length dat) - int (length s) + 1) (int (length s)) s (int c)
              (int j + 1) (int k) =
            (if k \<le> c \<and> c - k < length ?ms then int (?ms ! (c - k)) else - 1)"
        by (simp add: add.commute)
      with True False upt show ?thesis
        by (subst search_loop_step) (simp del: upt_Suc of_nat_Suc)
    next
      case occ: True
      show ?thesis
      proof (cases "k = c")
        case True
        with \<open>j + length s \<le> length dat\<close> occ upt show ?thesis
          by (subst search_loop_step) (simp del: upt_Suc of_nat_Suc)
      next
        case False
        have "1 \<le> Suc k" by simp
        from Suc.hyps(1) [OF m this]
        have ih: "search_loop dat (int (length dat) - int (length s) + 1) (int (length s)) s (int c)
              (int j + 1) (int k + 1) =
            (if Suc k \<le> c \<and> c - Suc k < length ?ms then int (?ms ! (c - Suc k)) else - 1)"
          by (simp add: add.commute)
        have "int k \<noteq> int c" using False by simp
        with \<open>j + length s \<le> length dat\<close> occ
        have "search_loop dat (int (length dat) - int (length s) + 1) (int (length s)) s (int c)
                (int j) (int k) =
              (if Suc k \<le> c \<and> c - Suc k < length ?ms then int (?ms ! (c - Suc k)) else - 1)"
          by (subst search_loop_step) (simp add: ih del: of_nat_Suc)
        also have "\<dots> = (if k \<le> c \<and> c - k < length (j # ?ms)
                          then int ((j # ?ms) ! (c - k)) else - 1)"
        proof (cases "k < c")
          case True
          then have "c - k = Suc (c - Suc k)" by simp
          with True show ?thesis by simp
        next
          case nlt: False
          with False have "\<not> k \<le> c" by simp
          then show ?thesis by simp
        qed
        finally show ?thesis using occ upt by (simp del: upt_Suc)
      qed
    qed
  qed
qed

lemma rsearch_loop_neg: "rsearch_loop dat sz len s c (- 1) k = - 1"
  by (subst rsearch_loop.simps) simp

lemma rsearch_loop_step:
  "rsearch_loop dat (int (length dat)) (int (length s)) s c (int j) k =
     (if occurs_at dat s j then
        (if k = c then int j
         else rsearch_loop dat (int (length dat)) (int (length s)) s c (int j - 1) (k + 1))
      else rsearch_loop dat (int (length dat)) (int (length s)) s c (int j - 1) k)"
  using window_eq [of j s dat] by (subst rsearch_loop.simps) auto

lemma rsearch_loop_matches:
  "1 \<le> k \<Longrightarrow>
   rsearch_loop dat (int (length dat)) (int (length s)) s (int c) (int j) (int k) =
     (if k \<le> c \<and> c - k < length (filter (occurs_at dat s) (rev [0..<Suc j]))
      then int (filter (occurs_at dat s) (rev [0..<Suc j]) ! (c - k)) else - 1)"
proof (induction j arbitrary: k)
  case 0
  show ?case
    by (subst rsearch_loop_step) (auto simp: rsearch_loop_neg)
next
  case (Suc j)
  let ?ms = "filter (occurs_at dat s) (rev [0..<Suc j])"
  have rv: "rev [0..<Suc (Suc j)] = Suc j # rev [0..<Suc j]" by simp
  have pred: "int (Suc j) - 1 = int j" by simp
  show ?case
  proof (cases "occurs_at dat s (Suc j)")
    case False
    with Suc.IH [of k] Suc.prems show ?thesis
      by (subst rsearch_loop_step) (simp only: pred rv filter.simps if_False)
  next
    case occ: True
    show ?thesis
    proof (cases "k = c")
      case True
      with occ show ?thesis
        by (subst rsearch_loop_step) (simp only: rv filter.simps, simp)
    next
      case False
      have "1 \<le> Suc k" by simp
      from Suc.IH [OF this]
      have ih: "rsearch_loop dat (int (length dat)) (int (length s)) s (int c) (int j) (int k + 1) =
            (if Suc k \<le> c \<and> c - Suc k < length ?ms then int (?ms ! (c - Suc k)) else - 1)"
        by (simp add: add.commute)
      have "int k \<noteq> int c" using False by simp
      with occ
      have "rsearch_loop dat (int (length dat)) (int (length s)) s (int c) (int (Suc j)) (int k) =
              (if Suc k \<le> c \<and> c - Suc k < length ?ms then int (?ms ! (c - Suc k)) else - 1)"
        by (subst rsearch_loop_step) (simp only: pred ih if_True if_False)
      also have "\<dots> = (if k \<le> c \<and> c - k < length (Suc j # ?ms)
                        then int ((Suc j # ?ms) ! (c - k)) else - 1)"
      proof (cases "k < c")
        case True
        then have "c - k = Suc (c - Suc k)" by simp
        with True show ?thesis by simp
      next
        case nlt: False
        with False have "\<not> k \<le> c" by simp
        then show ?thesis by simp
      qed
      finally show ?thesis using occ by (simp only: rv filter.simps if_True)
    qed
  qed
qed

lemma py_slice_to_take: "L \<le> length xs \<Longrightarrow> py_slice_to xs (int L) = take L xs"
  by (simp add: py_slice_to_def norm_index_def)

lemma search_data_ith_match:
  assumes "L \<le> length search"
  shows "search_data dat (int (length dat)) (int start) search (int L) (int i) =
           nth_match (forward_matches dat (take L search) start) i \<and>
         reverse_search_data dat (int (length dat)) (int start) search (int L) (int i) =
           nth_match (backward_matches dat (take L search) start) i"
proof -
  define s where "s = take L search"
  with assms have len: "length s = L" by simp
  have s: "py_slice_to search (int L) = s"
    using assms by (simp add: py_slice_to_take s_def)
  have f: "search_loop dat (int (length dat) - int (length s) + 1) (int (length s)) s (int i)
          (int start) (int 1) =
        nth_match (forward_matches dat s start) i"
    by (subst search_loop_matches) (auto simp: nth_match_def forward_matches_def)
  have r: "rsearch_loop dat (int (length dat)) (int (length s)) s (int i)
          (int start) (int 1) =
        nth_match (backward_matches dat s start) i"
    by (subst rsearch_loop_matches) (auto simp: nth_match_def backward_matches_def)
  from f r show ?thesis
    unfolding len s_def [symmetric] search_data_def reverse_search_data_def s by simp
qed

lemma empty_pattern_first:
  assumes "start \<le> length dat"
  shows "search_data dat (int (length dat)) (int start) search 0 1 = int start \<and>
         reverse_search_data dat (int (length dat)) (int start) search 0 1 = int start"
proof -
  from assms have "[start..<Suc (length dat)] = start # [Suc start..<Suc (length dat)]"
    by (simp add: upt_conv_Cons del: upt_Suc)
  with assms search_data_ith_match [of 0 search dat start 1] show ?thesis
    by (simp add: nth_match_def forward_matches_def backward_matches_def occurs_at_def
        del: upt_Suc) simp
qed

text \<open>
  Claim C4, with its last clause corrected. Let the pattern be the first \<open>L\<close> bytes of
  \<open>search\<close>, let \<open>size\<close> be the length of the buffer, and let \<open>start\<close> and \<open>i\<close> be natural
  numbers. \<open>search_data\<close> returns the offset of the \<open>i\<close>-th occurrence of the pattern at or
  after \<open>start\<close>, and \<open>reverse_search_data\<close> the offset of the \<open>i\<close>-th occurrence met when
  scanning from \<open>start\<close> down to 0; both return \<open>-1\<close> when there are fewer than \<open>i\<close>
  occurrences, in particular for \<open>i = 0\<close> and, when \<open>L > 0\<close>, on an empty buffer. Both are
  total. For \<open>L = 0\<close> the result is not the sentinel: the empty pattern occurs at every
  offset up to the length of the buffer, so the first match from a \<open>start\<close> inside the
  buffer is \<open>start\<close> itself, in both directions.
\<close>

theorem searches_return_ith_match:
  assumes "L \<le> length search"
  shows "search_data dat (int (length dat)) (int start) search (int L) (int i) =
           nth_match (forward_matches dat (take L search) start) i \<and>
         reverse_search_data dat (int (length dat)) (int start) search (int L) (int i) =
           nth_match (backward_matches dat (take L search) start) i \<and>
         (start \<le> length dat \<longrightarrow>
            search_data dat (int (length dat)) (int start) search 0 1 = int start \<and>
            reverse_search_data dat (int (length dat)) (int start) search 0 1 = int start)"
  using search_data_ith_match [OF assms, of dat start i] empty_pattern_first [of start dat search]
  by blast

text \<open>
  The pattern 1, 2 occurs in 1, 2, 1, 2, 1 at the offsets 0 and 2.
\<close>

theorem searches_return_ith_match_witness:
  "search_data [1, 2, 1, 2, 1] 5 0 [1, 2, 0, 0] 2 2 = 2 \<and>
   search_data [1, 2, 1, 2, 1] 5 0 [1, 2, 0, 0] 2 3 = - 1 \<and>
   reverse_search_data [1, 2, 1, 2, 1] 5 4 [1, 2, 0, 0] 2 2 = 0 \<and>
   reverse_search_data [1, 2, 1, 2, 1] 5 4 [1, 2, 0, 0] 2 3 = - 1 \<and>
   search_data [] 0 0 [1, 2, 0, 0] 2 1 = - 1 \<and>
   reverse_search_data [1, 2, 1, 2, 1] 5 4 [1, 2, 0, 0] 0 1 = 4"
  using searches_return_ith_match [of 2 "[1, 2, 0, 0]" "[1, 2, 1, 2, 1]" 0 2]
    searches_return_ith_match [of 2 "[1, 2, 0, 0]" "[1, 2, 1, 2, 1]" 0 3]
    searches_return_ith_match [of 2 "[1, 2, 0, 0]" "[1, 2, 1, 2, 1]" 4 2]
    searches_return_ith_match [of 2 "[1, 2, 0, 0]" "[1, 2, 1, 2, 1]" 4 3]
    searches_return_ith_match [of 2 "[1, 2, 0, 0]" "[]" 0 1]
    searches_return_ith_match [of 0 "[1, 2, 0, 0]" "[1, 2, 1, 2, 1]" 4 1]
  by (simp add: nth_match_def forward_matches_def backward_matches_def occurs_at_def
      upt_conv_Cons)

text \<open>
  The clause of the claim that fails: with \<open>L = 0\<close> the searches do not return the
  not-found sentinel. On an empty buffer both return the offset 0, and from offset 2 of a
  buffer of three bytes both return 2.
\<close>

theorem empty_pattern_is_found:
  "search_data [] 0 0 [] 0 1 = 0 \<and> reverse_search_data [] 0 0 [] 0 1 = 0 \<and>
   search_data [1, 2, 3] 3 2 [9, 9, 9, 9] 0 1 = 2 \<and>
   reverse_search_data [1, 2, 3] 3 2 [9, 9, 9, 9] 0 1 = 2"
  by code_simp

section \<open>Opcode D: what a test does to the line counter\<close>

lemma hex_digit_bound: "hex_digit c = Some d \<Longrightarrow> 0 \<le> d \<and> d \<le> 15"
  by (auto simp: hex_digit_def Let_def split: if_splits)

lemma hex_acc_bound:
  "hex_acc a s = Some v \<Longrightarrow> 0 \<le> a \<Longrightarrow> 0 \<le> v \<and> v < (a + 1) * 16 ^ length s"
proof (induction s arbitrary: a)
  case Nil
  then show ?case by simp
next
  case (Cons c cs)
  from Cons.prems obtain d where d: "hex_digit c = Some d"
    and r: "hex_acc (16 * a + d) cs = Some v"
    by (auto split: option.splits)
  from d have db: "0 \<le> d" "d \<le> 15" using hex_digit_bound by auto
  with Cons.prems have "0 \<le> 16 * a + d" by simp
  from Cons.IH [OF r this] have v: "0 \<le> v" "v < (16 * a + d + 1) * 16 ^ length cs"
    by auto
  have le: "(16 * a + d + 1) * 16 ^ length cs \<le> (16 * a + 16) * (16 ^ length cs :: int)"
    using db by (intro mult_right_mono) auto
  from v(2) le have "v < (16 * a + 16) * 16 ^ length cs" by (rule less_le_trans)
  with v show ?case by (simp add: algebra_simps)
qed

lemma parse_hex_bound: "parse_hex s = Inr v \<Longrightarrow> 0 \<le> v \<and> v < 16 ^ length s"
  using hex_acc_bound [of 0 s v]
  by (auto simp: parse_hex_def split: if_splits option.splits)

lemma skip_count_bound:
  assumes "parse_hex (substr line 9 11) = Inr n"
  shows "0 \<le> n \<and> n < 256"
proof -
  from assms have "0 \<le> n" and n: "n < 16 ^ length (substr line 9 11)"
    using parse_hex_bound by auto
  have "length (substr line 9 11) \<le> 2" by (simp add: substr_def)
  then have "(16 :: int) ^ length (substr line 9 11) \<le> 16 ^ 2"
    by (intro power_increasing) auto
  with n \<open>0 \<le> n\<close> show ?thesis by simp
qed

lemma int32_small: "0 \<le> n \<Longrightarrow> n < 256 \<Longrightarrow> int32 n = n"
  by (simp add: int32_def)

lemma py_getitem_next:
  "py_getitem ls (int li + 1) = (if li + 1 < length ls then Inr (ls ! (li + 1)) else Inl IndexError)"
  by (auto simp: py_getitem_def Let_def nat_add_distrib)

lemma skip_lines_eq:
  "skip_lines ls l li = (if l = 0 \<or> li + l < length ls then Inr (li + l) else Inl IndexError)"
proof (induction l arbitrary: li)
  case 0
  show ?case by simp
next
  case (Suc l)
  show ?case
    by (cases "li + 1 < length ls") (auto simp: py_getitem_next bindE_def Suc)
qed

lemma run_loop_step:
  "line_index < length (lines st) \<Longrightarrow>
   run_loop line_index st =
     (case exec_line line_index st of
        Inl e \<Rightarrow> Inl (QuickCodesError ''Invalid code!'', st)
      | Inr (line_index', st') \<Rightarrow> run_loop (line_index' + 1) st')"
  by (subst run_loop.simps) simp

lemma exec_line_test:
  assumes "lines st ! line_index = line" and "line ! 0 = CHR ''D''"
    and "parse_hex (substr line 9 11) = Inr n"
    and "test_holds line st = Inr passed"
    and "line_index < length (lines st)"
  shows "exec_line line_index st =
           (if passed then Inr (line_index, st)
            else if line_index + nat n < length (lines st) then Inr (line_index + nat n, st)
            else Inl IndexError)"
proof -
  from assms(3) have "int32 n = n" and "0 \<le> n"
    using skip_count_bound int32_small by auto
  with assms show ?thesis
    by (auto simp: exec_line_def op_test_def bindE_def skip_lines_eq)
qed

text \<open>
  Claim C8, with the case it leaves out. Let an opcode D line stand at \<open>line_index\<close>, let
  \<open>n\<close> be its skip count and let its operands be readable. When the comparison is true the
  loop goes on with the line that follows. When it is false and at least \<open>n\<close> lines follow,
  the loop goes on with line \<open>line_index + n + 1\<close>: the \<open>n\<close> lines after the test are not
  executed and the state is unchanged. When it is false and fewer than \<open>n\<close> lines follow,
  fetching the lines to skip raises \<open>IndexError\<close> and the run fails with
  \<open>QuickCodesError\<close>.
\<close>

theorem test_skips_declared_lines:
  assumes "line_index < length (lines st)"
    and "lines st ! line_index = line" and "line ! 0 = CHR ''D''"
    and "parse_hex (substr line 9 11) = Inr n"
    and "test_holds line st = Inr passed"
  shows "exec_line line_index st =
           (if passed then Inr (line_index, st)
            else if line_index + nat n < length (lines st) then Inr (line_index + nat n, st)
            else Inl IndexError) \<and>
         run_loop line_index st =
           (if passed then run_loop (line_index + 1) st
            else if line_index + nat n < length (lines st)
              then run_loop (line_index + nat n + 1) st
            else Inl (QuickCodesError ''Invalid code!'', st))"
  using exec_line_test [OF assms(2-5) assms(1)] run_loop_step [OF assms(1)]
  by simp

text \<open>
  A false test with skip count 2 before three lines goes on with the third of them; a
  true test goes on with the next line.
\<close>

theorem test_skips_declared_lines_witness:
  "exec_line 0
     (loaded [''D0000000 02000001'', ''20000000 11111111'', ''20000004 22222222'',
              ''20000008 33333333''] (replicate 16 0)) =
   Inr (2, loaded [''D0000000 02000001'', ''20000000 11111111'', ''20000004 22222222'',
                   ''20000008 33333333''] (replicate 16 0)) \<and>
   run_loop 0
     (loaded [''D0000000 02000001'', ''20000000 11111111'', ''20000004 22222222'',
              ''20000008 33333333''] (replicate 16 0)) =
   run_loop 3
     (loaded [''D0000000 02000001'', ''20000000 11111111'', ''20000004 22222222'',
              ''20000008 33333333''] (replicate 16 0)) \<and>
   run_loop 0 (loaded [''D0000000 02000000'', ''20000000 11111111''] (replicate 16 0)) =
   run_loop 1 (loaded [''D0000000 02000000'', ''20000000 11111111''] (replicate 16 0))"
proof -
  let ?a = "loaded [''D0000000 02000001'', ''20000000 11111111'', ''20000004 22222222'',
              ''20000008 33333333''] (replicate 16 0)"
  let ?b = "loaded [''D0000000 02000000'', ''20000000 11111111''] (replicate 16 0)"
  have n1: "parse_hex (substr ''D0000000 02000001'' 9 11) = Inr 2" by code_simp
  have n2: "parse_hex (substr ''D0000000 02000000'' 9 11) = Inr 2" by code_simp
  have t1: "test_holds ''D0000000 02000001'' ?a = Inr False" by code_simp
  have t2: "test_holds ''D0000000 02000000'' ?b = Inr True" by code_simp
  from test_skips_declared_lines [of 0 ?a "''D0000000 02000001''" 2 False]
    test_skips_declared_lines [of 0 ?b "''D0000000 02000000''" 2 True]
  show ?thesis by (simp add: n1 n2 t1 t2 numeral_2_eq_2 numeral_3_eq_3)
qed

text \<open>
  The claim as the specification words it fails when the program ends before the lines to
  skip do: the test below is false and declares two lines, one follows, and the run
  fails with nothing stored.
\<close>

theorem test_skip_past_end_fails:
  "test_holds ''D0000000 02000001''
     (loaded [''D0000000 02000001'', ''20000004 22222222''] (replicate 16 0)) = Inr False \<and>
   fst (apply_code
          (program ''D0000000 02000001 20000004 22222222''
             [''D0000000 02000001'', ''20000004 22222222''])
          (single_file (replicate 16 0))) =
     Inl (QuickCodesError ''Invalid code!'',
          program ''D0000000 02000001 20000004 22222222''
            [''D0000000 02000001'', ''20000004 22222222''] \<lparr>data := replicate 16 0\<rparr>) \<and>
   persisted (snd (apply_code
          (program ''D0000000 02000001 20000004 22222222''
             [''D0000000 02000001'', ''20000004 22222222''])
          (single_file (replicate 16 0)))) = []"
  by code_simp

lemma test_holds_unknown_operator:
  assumes "line ! 12 \<notin> set ''0123''" and "test_holds line st = Inr passed"
  shows "passed \<and> (\<exists>n. parse_hex (substr line 9 11) = Inr n)"
  using assms
  by (auto simp: test_holds_def bindE_Inr Let_def split: if_splits prod.splits)

text \<open>
  Claim C10, with the condition it leaves out. An opcode D line whose operator character
  is none of 0, 1, 2, 3 passes its test whenever its fields decode and its operands can be
  read, that is, whenever nothing is raised before the operator is looked at: no line is
  skipped, the state is unchanged and the loop goes on with the line that follows. The
  operands are read before the operator is examined, so a line whose operands cannot be
  read fails the run whatever its operator.
\<close>

theorem unknown_test_operator_passes:
  assumes "line_index < length (lines st)"
    and "lines st ! line_index = line" and "line ! 0 = CHR ''D''"
    and "line ! 12 \<notin> set ''0123''"
    and "test_holds line st = Inr passed"
  shows "passed \<and> exec_line line_index st = Inr (line_index, st) \<and>
         run_loop line_index st = run_loop (line_index + 1) st"
proof -
  from test_holds_unknown_operator [OF assms(4,5)] obtain n
    where p: passed and n: "parse_hex (substr line 9 11) = Inr n"
    by auto
  from exec_line_test [OF assms(2,3) n assms(5) assms(1)] p
  have e: "exec_line line_index st = Inr (line_index, st)" by simp
  with run_loop_step [OF assms(1)] p show ?thesis by simp
qed

text \<open>
  Operator 4 on a comparison that would be false under operator 0 (the buffer holds 0, the
  literal is 1), with a skip count of 2.
\<close>

theorem unknown_test_operator_passes_witness:
  "exec_line 0 (loaded [''D0000000 02040001'', ''20000000 11111111''] (replicate 16 0)) =
     Inr (0, loaded [''D0000000 02040001'', ''20000000 11111111''] (replicate 16 0)) \<and>
   run_loop 0 (loaded [''D0000000 02040001'', ''20000000 11111111''] (replicate 16 0)) =
   run_loop 1 (loaded [''D0000000 02040001'', ''20000000 11111111''] (replicate 16 0))"
proof -
  let ?a = "loaded [''D0000000 02040001'', ''20000000 11111111''] (replicate 16 0)"
  have t: "test_holds ''D0000000 02040001'' ?a = Inr True" by code_simp
  from unknown_test_operator_passes [of 0 ?a "''D0000000 02040001''" True]
  show ?thesis by (simp add: t)
qed

text \<open>
  The claim as the specification words it fails on such a line: operator 4, 8-bit mode,
  address 100 in a buffer of 16 bytes. The line is well formed, the read of the operand
  raises, and the run fails with nothing stored.
\<close>

theorem unreadable_operand_fails_the_run:
  "validate_code ''D0000064 02140001'' \<and> ''D0000064 02140001'' ! 12 = CHR ''4'' \<and>
   fst (apply_code (program ''D0000064 02140001'' [''D0000064 02140001''])
          (single_file (replicate 16 0))) =
     Inl (QuickCodesError ''Invalid code!'',
          program ''D0000064 02140001'' [''D0000064 02140001''] \<lparr>data := replicate 16 0\<rparr>) \<and>
   persisted (snd (apply_code (program ''D0000064 02140001'' [''D0000064 02140001''])
          (single_file (replicate 16 0)))) = []"
  by code_simp

section \<open>Opcodes 8, B and C: a count of zero\<close>

lemma bindE_return: "bindE (Inr x) f = f x"
  by (simp add: bindE_def)

lemma skip_inner_cong:
  assumes "skip_test a = skip_test b"
  shows "snd (skip_inner ls a li) = snd (skip_inner ls b li) \<and>
         skip_test (fst (skip_inner ls a li)) = skip_test (fst (skip_inner ls b li))"
proof -
  have a: "skip_inner ls a li =
      (if skip_test a then
         (if length ls \<le> li then (a, li) else skip_inner ls (ls ! li) (li + 1))
       else (a, li))"
    by (rule skip_inner.simps)
  have b: "skip_inner ls b li =
      (if skip_test b then
         (if length ls \<le> li then (b, li) else skip_inner ls (ls ! li) (li + 1))
       else (b, li))"
    by (rule skip_inner.simps)
  from assms show ?thesis unfolding a b by simp
qed

lemma skip_outer_cong:
  "skip_test a = skip_test b \<Longrightarrow> snd (skip_outer ls a li) = snd (skip_outer ls b li)"
proof (induction ls a li arbitrary: b rule: skip_outer.induct)
  case (1 ls line line_index)
  show ?case
  proof (cases "line_index < length ls")
    case False
    then have "skip_outer ls line line_index = (line, line_index)"
      and "skip_outer ls b line_index = (b, line_index)"
      by (subst skip_outer.simps, simp)+
    then show ?thesis by simp
  next
    case True
    obtain la na where a: "skip_inner ls line (line_index + 1) = (la, na)"
      by (cases "skip_inner ls line (line_index + 1)")
    obtain lb nb where b: "skip_inner ls b (line_index + 1) = (lb, nb)"
      by (cases "skip_inner ls b (line_index + 1)")
    from skip_inner_cong [OF "1.prems", of ls "line_index + 1"] a b
    have n: "na = nb" and t: "skip_test la = skip_test lb" by simp_all
    have ea: "skip_outer ls line line_index = skip_outer ls la na"
      using True a by (subst skip_outer.simps) simp
    have eb: "skip_outer ls b line_index = skip_outer ls lb nb"
      using True b by (subst skip_outer.simps) simp
    from "1.IH" [OF True a [symmetric] t]
    have "snd (skip_outer ls la na) = snd (skip_outer ls lb na)" .
    with ea eb n show ?thesis by simp
  qed
qed

lemma search_result_cong:
  "skip_test a = skip_test b \<Longrightarrow> search_result found a li st = search_result found b li st"
  using skip_outer_cong [of a b "lines st" li] by (simp add: search_result_def)

lemma read_words_more:
  "i < len \<Longrightarrow> read_words ls len i a li buf = read_words ls len i b li buf"
  by (simp add: read_words.simps [of ls len i a] read_words.simps [of ls len i b])

lemma read_words_done:
  "\<not> i < len \<Longrightarrow> read_words ls len i a li buf = Inr (a, li, buf)"
  by (simp add: read_words.simps [of ls len i a])

lemma search_tail_cong:
  assumes "skip_test a = skip_test b"
  shows "bindE (read_words ls len i a li buf)
           (\<lambda>(l', li', find). Inr (search_result (F find) l' li' st)) =
         bindE (read_words ls len i b li buf)
           (\<lambda>(l', li', find). Inr (search_result (F find) l' li' st))"
proof (cases "i < len")
  case True
  then show ?thesis by (simp add: read_words_more [of i len ls a li buf b])
next
  case False
  then show ?thesis
    by (simp add: read_words_done bindE_return search_result_cong [OF assms])
qed


lemma parse_hex_00: "parse_hex ''00'' = Inr 0"
  by code_simp

lemma parse_hex_01: "parse_hex ''01'' = Inr 1"
  by code_simp

lemma skip_test_count:
  "skip_test (c # t # CHR ''0'' # CHR ''0'' # rest) = skip_test (c # t # CHR ''0'' # CHR ''1'' # rest)"
  by (simp add: skip_test_def)


lemma count_field_00:
  "substr (c # t # CHR ''0'' # CHR ''0'' # rest) 2 4 = ''00'' \<and>
   substr (c # t # CHR ''0'' # CHR ''0'' # rest) 4 8 = take 4 rest \<and>
   substr (c # t # CHR ''0'' # CHR ''0'' # rest) 9 17 = take 8 (drop 5 rest) \<and>
   (c # t # CHR ''0'' # CHR ''0'' # rest) ! 1 = t"
  by (simp add: substr_def)

lemma count_field_01:
  "substr (c # t # CHR ''0'' # CHR ''1'' # rest) 2 4 = ''01'' \<and>
   substr (c # t # CHR ''0'' # CHR ''1'' # rest) 4 8 = take 4 rest \<and>
   substr (c # t # CHR ''0'' # CHR ''1'' # rest) 9 17 = take 8 (drop 5 rest) \<and>
   (c # t # CHR ''0'' # CHR ''1'' # rest) ! 1 = t"
  by (simp add: substr_def)

lemma int32_0_1: "int32 0 = 0 \<and> int32 1 = 1"
  by (simp add: int32_def)

text \<open>
  The handlers of opcodes 8, B and C give the same result, errors included, on a line
  whose count field is \<open>00\<close> as on the same line with the count field \<open>01\<close>.
\<close>

lemma zero_count_same_as_one:
  "op_search line_index (c # t # CHR ''0'' # CHR ''0'' # rest) st =
     op_search line_index (c # t # CHR ''0'' # CHR ''1'' # rest) st \<and>
   op_rsearch line_index (c # t # CHR ''0'' # CHR ''0'' # rest) st =
     op_rsearch line_index (c # t # CHR ''0'' # CHR ''1'' # rest) st \<and>
   op_asearch line_index (c # t # CHR ''0'' # CHR ''0'' # rest) st =
     op_asearch line_index (c # t # CHR ''0'' # CHR ''1'' # rest) st"
proof -
  note tail = search_tail_cong [OF skip_test_count [of c t rest]]
  note res = search_result_cong [OF skip_test_count [of c t rest]]
  have s: "op_search line_index (c # t # CHR ''0'' # CHR ''0'' # rest) st =
     op_search line_index (c # t # CHR ''0'' # CHR ''1'' # rest) st"
    unfolding op_search_def Let_def
    by (simp only: count_field_00 count_field_01 parse_hex_00 parse_hex_01 bindE_return
        int32_0_1 tail if_True) simp
  have r: "op_rsearch line_index (c # t # CHR ''0'' # CHR ''0'' # rest) st =
     op_rsearch line_index (c # t # CHR ''0'' # CHR ''1'' # rest) st"
    unfolding op_rsearch_def Let_def
    by (simp only: count_field_00 count_field_01 parse_hex_00 parse_hex_01 bindE_return
        int32_0_1 tail if_True) simp
  have a: "op_asearch line_index (c # t # CHR ''0'' # CHR ''0'' # rest) st =
     op_asearch line_index (c # t # CHR ''0'' # CHR ''1'' # rest) st"
    unfolding op_asearch_def Let_def
    by (simp only: count_field_00 count_field_01 parse_hex_00 parse_hex_01 bindE_return
        int32_0_1 res if_True) simp
  from s r a show ?thesis by simp
qed

text \<open>
  With the pattern at offsets 1 and 6, the count \<open>00\<close> sets the pointer to 1 and the
  count \<open>02\<close> sets it to 6.
\<close>

lemma zero_count_example:
  "exec_line 0 (loaded [''80000004 DEADBEEF''] [0, 222, 173, 190, 239, 0, 222, 173, 190, 239]) =
     Inr (0, loaded [''80000004 DEADBEEF''] [0, 222, 173, 190, 239, 0, 222, 173, 190, 239]
               \<lparr>pointer := 1\<rparr>) \<and>
   exec_line 0 (loaded [''80020004 DEADBEEF''] [0, 222, 173, 190, 239, 0, 222, 173, 190, 239]) =
     Inr (0, loaded [''80020004 DEADBEEF''] [0, 222, 173, 190, 239, 0, 222, 173, 190, 239]
               \<lparr>pointer := 6\<rparr>)"
  by code_simp

lemma search_loop_first:
  "search_loop dat stop len s c i c =
     (case find (\<lambda>j. py_slice dat j (j + len) = s) [i..stop - 1] of
        None \<Rightarrow> - 1 | Some j \<Rightarrow> j)"
proof (induction "nat (stop - i)" arbitrary: i)
  case 0
  then have "\<not> i < stop" by simp
  then show ?case by (subst search_loop.simps) simp
next
  case (Suc n)
  then have lt: "i < stop" and n: "n = nat (stop - (i + 1))" by simp_all
  from lt have u: "[i..stop - 1] = i # [i + 1..stop - 1]"
    by (simp add: upto_rec1)
  show ?case
  proof (cases "py_slice dat i (i + len) = s")
    case True
    with lt u show ?thesis by (subst search_loop.simps) simp
  next
    case False
    with lt u Suc.hyps(1) [OF n] show ?thesis by (subst search_loop.simps) simp
  qed
qed

lemma rsearch_loop_first:
  "rsearch_loop dat sz len s c i c =
     (case find (\<lambda>j. j + len \<le> sz \<and> py_slice dat j (j + len) = s) (rev [0..i]) of
        None \<Rightarrow> - 1 | Some j \<Rightarrow> j)"
proof (induction "nat (i + 1)" arbitrary: i)
  case 0
  then have "\<not> - 1 < i" by simp
  then show ?case by (subst rsearch_loop.simps) simp
next
  case (Suc n)
  then have ge: "- 1 < i" and n: "n = nat (i - 1 + 1)" by simp_all
  from ge have u: "rev [0..i] = i # rev [0..i - 1]"
    by (simp add: upto_rec2)
  show ?case
  proof (cases "i + len \<le> sz \<and> py_slice dat i (i + len) = s")
    case True
    with ge u show ?thesis by (subst rsearch_loop.simps) simp
  next
    case False
    with ge u Suc.hyps(1) [OF n] show ?thesis by (subst rsearch_loop.simps) auto
  qed
qed

lemma search_data_first:
  "search_data dat sz start search len 1 = first_forward dat sz start search len"
  by (simp add: search_data_def first_forward_def search_loop_first)

lemma reverse_search_data_first:
  "reverse_search_data dat sz start search len 1 = first_backward dat sz start search len"
  by (simp add: reverse_search_data_def first_backward_def rsearch_loop_first)

lemma int32_0: "int32 0 = 0"
  by (simp add: int32_def)

text \<open>
  Claim C9. Let the count field of a search line decode to 0 and let its other fields
  decode. The handler of opcode 8 then puts the first match of the forward scan into the
  pointer, the handler of opcode B the first match of the backward scan, and the handler
  of opcode C the first match of its forward scan over the range its subtype selects:
  each calls the matcher with the count 1, which returns the first match in scan order,
  and hands the offset to the code that sets the pointer or, when nothing is found,
  skips the dependent lines.
\<close>

theorem zero_count_takes_first_match:
  assumes "parse_hex (substr line 2 4) = Inr 0"
    and "parse_hex (substr line 4 8) = Inr tmp4"
    and "parse_hex (substr line 9 17) = Inr tmp8"
  shows "(read_words (lines st) (int32 tmp4) 4 line line_index
            (py_slice_assign (padded (int32 tmp4)) 0 4 (as_bytes Big 4 (uint32 tmp8))) =
          Inr (line', line_index', pat) \<longrightarrow>
          op_search line_index line st =
            Inr (search_result
                   (first_forward (data st) (int (length (data st)))
                      (if line ! 1 = CHR ''8'' then pointer st else 0) pat (int32 tmp4))
                   line' line_index' st) \<and>
          op_rsearch line_index line st =
            Inr (search_result
                   (first_backward (data st) (int (length (data st)))
                      (if line ! 1 = CHR ''8'' then pointer st
                       else if end_pointer st = 0 then uint64 (int (length (data st)) - 1)
                       else end_pointer st)
                      pat (int32 tmp4))
                   line' line_index'
                   (if end_pointer st = 0
                    then st\<lparr>end_pointer := uint64 (int (length (data st)) - 1)\<rparr> else st))) \<and>
         op_asearch line_index line st =
           Inr (search_result
                  (if line ! 1 \<in> set ''4C''
                   then first_forward (data st)
                          ((if line ! 1 \<in> set ''8C'' then uint32 (uint32 tmp8 + pointer st)
                            else uint32 tmp8) + int32 tmp4) 0
                          (py_slice_from (data st)
                             (if line ! 1 \<in> set ''8C'' then uint32 (uint32 tmp8 + pointer st)
                              else uint32 tmp8))
                          (int32 tmp4)
                   else first_forward (data st) (int (length (data st)))
                          ((if line ! 1 \<in> set ''8C'' then uint32 (uint32 tmp8 + pointer st)
                            else uint32 tmp8) + int32 tmp4)
                          (py_slice_from (data st)
                             (if line ! 1 \<in> set ''8C'' then uint32 (uint32 tmp8 + pointer st)
                              else uint32 tmp8))
                          (int32 tmp4))
                  line line_index st)"
proof -
  have a: "op_asearch line_index line st = Inr (search_result
                  (if line ! 1 \<in> set ''4C''
                   then first_forward (data st)
                          ((if line ! 1 \<in> set ''8C'' then uint32 (uint32 tmp8 + pointer st)
                            else uint32 tmp8) + int32 tmp4) 0
                          (py_slice_from (data st)
                             (if line ! 1 \<in> set ''8C'' then uint32 (uint32 tmp8 + pointer st)
                              else uint32 tmp8))
                          (int32 tmp4)
                   else first_forward (data st) (int (length (data st)))
                          ((if line ! 1 \<in> set ''8C'' then uint32 (uint32 tmp8 + pointer st)
                            else uint32 tmp8) + int32 tmp4)
                          (py_slice_from (data st)
                             (if line ! 1 \<in> set ''8C'' then uint32 (uint32 tmp8 + pointer st)
                              else uint32 tmp8))
                          (int32 tmp4))
                  line line_index st)"
    unfolding op_asearch_def Let_def
    by (simp add: assms bindE_return int32_0 search_data_first)
  have s: "op_search line_index line st =
            Inr (search_result
                   (first_forward (data st) (int (length (data st)))
                      (if line ! 1 = CHR ''8'' then pointer st else 0) pat (int32 tmp4))
                   line' line_index' st)"
    if "read_words (lines st) (int32 tmp4) 4 line line_index
            (py_slice_assign (padded (int32 tmp4)) 0 4 (as_bytes Big 4 (uint32 tmp8))) =
          Inr (line', line_index', pat)"
    unfolding op_search_def Let_def
    by (simp add: assms that bindE_return int32_0 search_data_first)
  have r: "op_rsearch line_index line st =
            Inr (search_result
                   (first_backward (data st) (int (length (data st)))
                      (if line ! 1 = CHR ''8'' then pointer st
                       else if end_pointer st = 0 then uint64 (int (length (data st)) - 1)
                       else end_pointer st)
                      pat (int32 tmp4))
                   line' line_index'
                   (if end_pointer st = 0
                    then st\<lparr>end_pointer := uint64 (int (length (data st)) - 1)\<rparr> else st))"
    if "read_words (lines st) (int32 tmp4) 4 line line_index
            (py_slice_assign (padded (int32 tmp4)) 0 4 (as_bytes Big 4 (uint32 tmp8))) =
          Inr (line', line_index', pat)"
    using that unfolding op_rsearch_def Let_def
    by (cases "end_pointer st = 0")
      (simp_all add: assms bindE_return int32_0 reverse_search_data_first)
  from a s r show ?thesis by blast
qed


text \<open>
  The pattern DE AD BE EF stands at the offsets 1 and 6 of the buffer. With the count
  field \<open>00\<close> the forward search sets the pointer to 1, the backward search to 6, and the
  address search for the four bytes at offset 6, over the range up to that address, to 1.
\<close>

theorem zero_count_takes_first_match_witness:
  "op_search 0 ''80000004 DEADBEEF''
     (loaded [''80000004 DEADBEEF''] [0, 222, 173, 190, 239, 0, 222, 173, 190, 239]) =
   Inr (0, loaded [''80000004 DEADBEEF''] [0, 222, 173, 190, 239, 0, 222, 173, 190, 239]
             \<lparr>pointer := 1\<rparr>) \<and>
   op_rsearch 0 ''B0000004 DEADBEEF''
     (loaded [''B0000004 DEADBEEF''] [0, 222, 173, 190, 239, 0, 222, 173, 190, 239]) =
   Inr (0, loaded [''B0000004 DEADBEEF''] [0, 222, 173, 190, 239, 0, 222, 173, 190, 239]
             \<lparr>pointer := 6, end_pointer := 9\<rparr>) \<and>
   op_asearch 0 ''C4000004 00000006''
     (loaded [''C4000004 00000006''] [0, 222, 173, 190, 239, 0, 222, 173, 190, 239]) =
   Inr (0, loaded [''C4000004 00000006''] [0, 222, 173, 190, 239, 0, 222, 173, 190, 239]
             \<lparr>pointer := 1\<rparr>)"
proof -
  let ?d = "[0, 222, 173, 190, 239, 0, 222, 173, 190, 239] :: bytes"
  let ?p = "[222, 173, 190, 239] :: bytes"
  let ?s = "loaded [''80000004 DEADBEEF''] ?d"
  let ?b = "loaded [''B0000004 DEADBEEF''] ?d"
  let ?c = "loaded [''C4000004 00000006''] ?d"
  have s3: "parse_hex (substr ''80000004 DEADBEEF'' 2 4) = Inr 0" by code_simp
  have s4: "parse_hex (substr ''80000004 DEADBEEF'' 4 8) = Inr 4" by code_simp
  have s8: "parse_hex (substr ''80000004 DEADBEEF'' 9 17) = Inr 3735928559" by code_simp
  have b3: "parse_hex (substr ''B0000004 DEADBEEF'' 2 4) = Inr 0" by code_simp
  have b4: "parse_hex (substr ''B0000004 DEADBEEF'' 4 8) = Inr 4" by code_simp
  have b8: "parse_hex (substr ''B0000004 DEADBEEF'' 9 17) = Inr 3735928559" by code_simp
  have c3: "parse_hex (substr ''C4000004 00000006'' 2 4) = Inr 0" by code_simp
  have c4: "parse_hex (substr ''C4000004 00000006'' 4 8) = Inr 4" by code_simp
  have c8: "parse_hex (substr ''C4000004 00000006'' 9 17) = Inr 6" by code_simp
  have sw: "read_words (lines ?s) (int32 4) 4 ''80000004 DEADBEEF'' 0
      (py_slice_assign (padded (int32 4)) 0 4 (as_bytes Big 4 (uint32 3735928559))) =
      Inr (''80000004 DEADBEEF'', 0, ?p)" by code_simp
  have bw: "read_words (lines ?b) (int32 4) 4 ''B0000004 DEADBEEF'' 0
      (py_slice_assign (padded (int32 4)) 0 4 (as_bytes Big 4 (uint32 3735928559))) =
      Inr (''B0000004 DEADBEEF'', 0, ?p)" by code_simp
  note S = zero_count_takes_first_match [OF s3 s4 s8, of ?s 0 "''80000004 DEADBEEF''" 0 ?p,
      THEN conjunct1, THEN mp, OF sw, THEN conjunct1]
  note B = zero_count_takes_first_match [OF b3 b4 b8, of ?b 0 "''B0000004 DEADBEEF''" 0 ?p,
      THEN conjunct1, THEN mp, OF bw, THEN conjunct2]
  note C = zero_count_takes_first_match [OF c3 c4 c8, of ?c 0 "[]" 0 "[]", THEN conjunct2]
  have s: "op_search 0 ''80000004 DEADBEEF'' ?s = Inr (0, ?s\<lparr>pointer := 1\<rparr>)"
    unfolding S by code_simp
  have b: "op_rsearch 0 ''B0000004 DEADBEEF'' ?b =
      Inr (0, ?b\<lparr>pointer := 6, end_pointer := 9\<rparr>)"
    unfolding B by code_simp
  have c: "op_asearch 0 ''C4000004 00000006'' ?c = Inr (0, ?c\<lparr>pointer := 1\<rparr>)"
    unfolding C by code_simp
  from s b c show ?thesis by simp
qed

end
